theory Spec2Isabelle
  imports Main
begin

section \<open>Time model\<close>

text \<open>
  A JavaScript \<open>Date\<close> is an instant: an integer number of milliseconds since the epoch.
  The functions of date-fns that the code calls (\<open>startOfDay\<close>, \<open>endOfDay\<close>, \<open>format\<close>,
  \<open>getDay\<close>) read an instant in the time zone of the process. The time zone is not
  part of the repository, so it is a parameter of the model: a \<open>Zone\<close> gives the
  wall-clock reading of an instant (milliseconds since 1970-01-01T00:00 on the local
  clock) and the instant that the engine assigns to a wall-clock reading.
  \<open>addMinutes\<close> adds elapsed time to the instant and reads no clock.

  Timestamp strings are represented by what \<open>parseISO\<close> returns for them: an instant
  (\<open>updatedAt\<close> by what \<open>new Date (...).getTime ()\<close> returns). The start and end of a
  session and \<open>updatedAt\<close> are taken to be well formed.
  A calendar date (\<open>'yyyy-MM-dd'\<close>) is represented by its day number, the number of
  whole days between 1970-01-01 and that date; \<open>format (d, 'yyyy-MM-dd')\<close> renders
  the day number of the local reading of \<open>d\<close>. Time-of-day strings (\<open>'HH:mm'\<close>)
  are kept as strings, since the code parses and compares them.
\<close>

type_synonym Date = int

record Zone =
  toLocal :: "int \<Rightarrow> int"
  fromLocal :: "int \<Rightarrow> int"

definition MS_PER_MINUTE :: int where
  "MS_PER_MINUTE = 60000"

definition MS_PER_DAY :: int where
  "MS_PER_DAY = 86400000"

definition SLOT_MINUTES :: int where
  "SLOT_MINUTES = 30"

definition fixedOffset :: "int \<Rightarrow> Zone" where
  "fixedOffset c = \<lparr>toLocal = (\<lambda>t. t + c), fromLocal = (\<lambda>l. l - c)\<rparr>"

definition utc :: Zone where
  "utc = fixedOffset 0"

text \<open>
  America/New\_York around the end of daylight saving time in 2026: the local clock is
  four hours behind UTC until 2026-11-01T06:00Z (day 20758) and five hours behind from
  then on. A wall-clock reading that occurs twice is given its first occurrence.
\<close>

definition newYorkFall2026 :: Zone where
  "newYorkFall2026 =
     \<lparr>toLocal = (\<lambda>t. if t < 20758 * 86400000 + 6 * 3600000
                       then t - 4 * 3600000 else t - 5 * 3600000),
      fromLocal = (\<lambda>l. if l < 20758 * 86400000 + 2 * 3600000
                         then l + 4 * 3600000 else l + 5 * 3600000)\<rparr>"

definition addMinutes :: "Date \<Rightarrow> int \<Rightarrow> Date" where
  "addMinutes d amount = d + amount * MS_PER_MINUTE"

definition localDay :: "Zone \<Rightarrow> Date \<Rightarrow> int" where
  "localDay z d = toLocal z d div MS_PER_DAY"

definition startOfDay :: "Zone \<Rightarrow> Date \<Rightarrow> Date" where
  "startOfDay z d = fromLocal z (localDay z d * MS_PER_DAY)"

definition endOfDay :: "Zone \<Rightarrow> Date \<Rightarrow> Date" where
  "endOfDay z d = fromLocal z (localDay z d * MS_PER_DAY + (MS_PER_DAY - 1))"

definition getDay :: "Zone \<Rightarrow> Date \<Rightarrow> int" where
  "getDay z d = (localDay z d + 4) mod 7"

definition isBefore :: "Date \<Rightarrow> Date \<Rightarrow> bool" where
  "isBefore a b = (a < b)"

definition isAfter :: "Date \<Rightarrow> Date \<Rightarrow> bool" where
  "isAfter a b = (a > b)"

definition DAY_MAP :: "int \<Rightarrow> string" where
  "DAY_MAP n =
     (if n = 0 then ''Sun'' else if n = 1 then ''Mon'' else if n = 2 then ''Tue''
      else if n = 3 then ''Wed'' else if n = 4 then ''Thu'' else if n = 5 then ''Fri''
      else ''Sat'')"

definition format_date :: "Zone \<Rightarrow> Date \<Rightarrow> int" where
  "format_date z d = localDay z d"

definition format_EEE :: "Zone \<Rightarrow> Date \<Rightarrow> string" where
  "format_EEE z d = DAY_MAP (getDay z d)"

subsection \<open>Time-of-day strings\<close>

definition DIGITS :: string where
  "DIGITS = ''0123456789''"

definition digitChar :: "int \<Rightarrow> char" where
  "digitChar d = DIGITS ! nat d"

definition pad2 :: "int \<Rightarrow> string" where
  "pad2 n = [digitChar (n div 10), digitChar (n mod 10)]"

definition format_HHmm :: "Zone \<Rightarrow> Date \<Rightarrow> string" where
  "format_HHmm z d =
     (let l = toLocal z d mod MS_PER_DAY
      in pad2 (l div 3600000) @ '':'' @ pad2 ((l div 60000) mod 60))"

fun indexOf :: "char \<Rightarrow> string \<Rightarrow> int \<Rightarrow> int option" where
  "indexOf c [] k = None"
| "indexOf c (x # xs) k = (if c = x then Some k else indexOf c xs (k + 1))"

definition digitVal :: "char \<Rightarrow> int option" where
  "digitVal c = indexOf c DIGITS 0"

text \<open>
  \<open>Number\<close> applied to a string: \<open>None\<close> is \<open>NaN\<close>. The model reads strings of decimal
  digits and the empty string (which JavaScript reads as 0); these are the spellings
  an \<open>'HH:mm'\<close> field is made of. Other spellings (blanks, signs, fractions, exponents)
  are not covered and no statement below is about them.
\<close>

fun digitsVal :: "int \<Rightarrow> string \<Rightarrow> int option" where
  "digitsVal acc [] = Some acc"
| "digitsVal acc (c # cs) =
     (case digitVal c of None \<Rightarrow> None | Some d \<Rightarrow> digitsVal (10 * acc + d) cs)"

definition Number_js :: "string \<Rightarrow> int option" where
  "Number_js s = digitsVal 0 s"

fun split_colon :: "string \<Rightarrow> string \<Rightarrow> string list" where
  "split_colon acc [] = [rev acc]"
| "split_colon acc (c # cs) =
     (if c = CHR '':'' then rev acc # split_colon [] cs else split_colon (c # acc) cs)"

definition timeToMinutes :: "string \<Rightarrow> int option" where
  "timeToMinutes t =
     (case map Number_js (split_colon [] t) of
        Some hours # Some minutes # _ \<Rightarrow> Some (hours * 60 + minutes)
      | _ \<Rightarrow> None)"

text \<open>Comparisons of numbers that may be \<open>NaN\<close>: false as soon as one side is.\<close>

definition ge_js :: "int option \<Rightarrow> int option \<Rightarrow> bool" where
  "ge_js a b = (case (a, b) of (Some x, Some y) \<Rightarrow> x \<ge> y | _ \<Rightarrow> False)"

definition lt_js :: "int option \<Rightarrow> int option \<Rightarrow> bool" where
  "lt_js a b = (case (a, b) of (Some x, Some y) \<Rightarrow> x < y | _ \<Rightarrow> False)"

definition le_js :: "int option \<Rightarrow> int option \<Rightarrow> bool" where
  "le_js a b = (case (a, b) of (Some x, Some y) \<Rightarrow> x \<le> y | _ \<Rightarrow> False)"

section \<open>Data model\<close>

datatype RuleStatus = RAvailable | RMaybe | RUnavailable

datatype SlotStatus = Available | Maybe | Unavailable | Booked | Blank

fun slotStatus :: "RuleStatus \<Rightarrow> SlotStatus" where
  "slotStatus RAvailable = Available"
| "slotStatus RMaybe = Maybe"
| "slotStatus RUnavailable = Unavailable"

datatype RuleType = OneTime | Recurring

datatype Source = WebApp | Chatbot | Booking

text \<open>
  An optional timestamp field is \<open>None\<close> when it is absent, empty or unparseable: the
  code then takes the same branch in each case (the field is falsy, or every comparison
  with the invalid date is false).
\<close>

record AvailabilityRule =
  rule_id :: string
  rule_engineerId :: string
  rule_status :: RuleStatus
  ruleType :: RuleType
  startDateTime :: "Date option"
  endDateTime :: "Date option"
  startTime :: "string option"
  endTime :: "string option"
  recurrenceDays :: "string list option"
  effectiveFrom :: "Date option"
  effectiveUntil :: "Date option"
  rule_source :: Source
  updatedAt :: int

record Session =
  session_id :: string
  session_title :: string
  session_engineerId :: string
  session_start :: Date
  session_end :: Date

record TimeSlot =
  time :: string
  datetime :: Date
  status :: SlotStatus
  ruleId :: "string option"
  sessionId :: "string option"

record DayAvailability =
  date :: int
  dayName :: string
  slots :: "TimeSlot list"

section \<open>Slot generator\<close>

definition blankSlot :: "Zone \<Rightarrow> Date \<Rightarrow> int \<Rightarrow> TimeSlot" where
  "blankSlot z dayStart minutes =
     (let slotTime = addMinutes dayStart minutes
      in \<lparr>time = format_HHmm z slotTime, datetime = slotTime, status = Blank,
          ruleId = None, sessionId = None\<rparr>)"

function slotLoop :: "Zone \<Rightarrow> Date \<Rightarrow> int \<Rightarrow> TimeSlot list" where
  "slotLoop z dayStart minutes =
     (if minutes < 24 * 60
      then blankSlot z dayStart minutes # slotLoop z dayStart (minutes + SLOT_MINUTES)
      else [])"
  by pat_completeness auto
termination
  by (relation "measure (\<lambda>(z, dayStart, minutes). nat (24 * 60 - minutes))")
     (auto simp: SLOT_MINUTES_def)

declare slotLoop.simps [simp del]

definition generateDaySlots :: "Zone \<Rightarrow> Date \<Rightarrow> TimeSlot list" where
  "generateDaySlots z d = slotLoop z (startOfDay z d) 0"

section \<open>Rule applicability\<close>

definition recurringRuleApplies :: "Zone \<Rightarrow> AvailabilityRule \<Rightarrow> Date \<Rightarrow> bool" where
  "recurringRuleApplies z rule d =
     (if ruleType rule \<noteq> Recurring then False
      else case recurrenceDays rule of
        None \<Rightarrow> False
      | Some days \<Rightarrow>
          if days = [] then False
          else if DAY_MAP (getDay z d) \<notin> set days then False
          else if (case effectiveFrom rule of None \<Rightarrow> False | Some ef \<Rightarrow> isBefore d ef)
            then False
          else if (case effectiveUntil rule of None \<Rightarrow> False | Some eu \<Rightarrow> isAfter d eu)
            then False
          else True)"

definition oneTimeRuleApplies :: "AvailabilityRule \<Rightarrow> Date \<Rightarrow> Date \<Rightarrow> bool" where
  "oneTimeRuleApplies rule slotStart slotEnd =
     (if ruleType rule \<noteq> OneTime then False
      else case (startDateTime rule, endDateTime rule) of
        (Some ruleStart, Some ruleEnd) \<Rightarrow> isBefore slotStart ruleEnd \<and> isAfter slotEnd ruleStart
      | _ \<Rightarrow> False)"

definition falsy :: "string option \<Rightarrow> bool" where
  "falsy s = (s = None \<or> s = Some [])"

definition recurringSlotApplies :: "AvailabilityRule \<Rightarrow> Date \<Rightarrow> string \<Rightarrow> bool" where
  "recurringSlotApplies rule d slotTime =
     (if falsy (startTime rule) \<or> falsy (endTime rule) then False
      else
        (let slotMinutes = timeToMinutes slotTime;
             startMinutes = timeToMinutes (the (startTime rule));
             endMinutes = timeToMinutes (the (endTime rule))
         in if le_js endMinutes startMinutes
            then ge_js slotMinutes startMinutes \<or> lt_js slotMinutes endMinutes
            else ge_js slotMinutes startMinutes \<and> lt_js slotMinutes endMinutes))"

definition sessionCoversSlot :: "Session \<Rightarrow> Date \<Rightarrow> Date \<Rightarrow> bool" where
  "sessionCoversSlot session slotStart slotEnd =
     (isBefore slotStart (session_end session) \<and> isAfter slotEnd (session_start session))"

section \<open>Rule resolution engine\<close>

definition sortByUpdatedAt :: "AvailabilityRule list \<Rightarrow> AvailabilityRule list" where
  "sortByUpdatedAt rules = sort_key updatedAt rules"

definition applyRule ::
  "Zone \<Rightarrow> Date \<Rightarrow> Date \<Rightarrow> Date \<Rightarrow> TimeSlot \<Rightarrow> AvailabilityRule \<Rightarrow> TimeSlot" where
  "applyRule z currentDate slotStart slotEnd slot rule =
     (let slot1 =
            (if ruleType rule = OneTime \<and> oneTimeRuleApplies rule slotStart slotEnd
             then slot\<lparr>status := slotStatus (rule_status rule), ruleId := Some (rule_id rule)\<rparr>
             else slot)
      in if ruleType rule = Recurring \<and> recurringRuleApplies z rule currentDate
            \<and> recurringSlotApplies rule currentDate (time slot1)
         then slot1\<lparr>status := slotStatus (rule_status rule), ruleId := Some (rule_id rule)\<rparr>
         else slot1)"

definition applySessions :: "Session list \<Rightarrow> Date \<Rightarrow> Date \<Rightarrow> TimeSlot \<Rightarrow> TimeSlot" where
  "applySessions sessions slotStart slotEnd slot =
     (case find (\<lambda>session. sessionCoversSlot session slotStart slotEnd) sessions of
        None \<Rightarrow> slot
      | Some session \<Rightarrow> slot\<lparr>status := Booked, sessionId := Some (session_id session)\<rparr>)"

definition resolveSlot ::
  "Zone \<Rightarrow> AvailabilityRule list \<Rightarrow> Session list \<Rightarrow> Date \<Rightarrow> TimeSlot \<Rightarrow> TimeSlot" where
  "resolveSlot z sortedRules sessions currentDate slot =
     (let slotStart = datetime slot;
          slotEnd = addMinutes slotStart SLOT_MINUTES
      in applySessions sessions slotStart slotEnd
           (foldl (applyRule z currentDate slotStart slotEnd) slot sortedRules))"

definition resolveDay ::
  "Zone \<Rightarrow> AvailabilityRule list \<Rightarrow> Session list \<Rightarrow> Date \<Rightarrow> DayAvailability" where
  "resolveDay z rules sessions currentDate =
     \<lparr>date = format_date z currentDate,
      dayName = format_EEE z currentDate,
      slots = map (resolveSlot z (sortByUpdatedAt rules) sessions currentDate)
                  (generateDaySlots z currentDate)\<rparr>"

function dayLoop ::
  "Zone \<Rightarrow> AvailabilityRule list \<Rightarrow> Session list \<Rightarrow> Date \<Rightarrow> Date \<Rightarrow> DayAvailability list"
where
  "dayLoop z rules sessions currentDate endT =
     (if isBefore currentDate endT \<or> currentDate = endT
      then resolveDay z rules sessions currentDate
           # dayLoop z rules sessions (addMinutes currentDate (24 * 60)) endT
      else [])"
  by pat_completeness auto
termination
  by (relation "measure (\<lambda>(z, rules, sessions, currentDate, endT). nat (endT - currentDate + 1))")
     (auto simp: isBefore_def addMinutes_def MS_PER_MINUTE_def)

declare dayLoop.simps [simp del]

definition calculateAvailability ::
  "Zone \<Rightarrow> AvailabilityRule list \<Rightarrow> Session list \<Rightarrow> Date \<Rightarrow> Date \<Rightarrow> DayAvailability list"
where
  "calculateAvailability z rules sessions startDate endDate =
     dayLoop z rules sessions (startOfDay z startDate) (endOfDay z endDate)"

section \<open>The arrays of a call, in a store\<close>

text \<open>
  \<open>calculateAvailability\<close> receives references to two arrays, and \<open>Array.prototype.sort\<close>
  sorts the array it is called on in place. To state what a call does to its arguments,
  the arrays live in a store: a \<open>Heap\<close> maps references to the contents of the rule arrays
  and of the session arrays, and \<open>nextRef\<close> is the first reference not yet allocated.
  \<open>[...rules]\<close> allocates a new array with the elements of \<open>rules\<close>; \<open>sort\<close> overwrites
  the array it is given. The slots and the result are new objects of the call and stay
  values. \<open>calculateAvailabilityH\<close> is the function with the store threaded through it.
\<close>

record Heap =
  ruleArrays :: "nat \<Rightarrow> AvailabilityRule list"
  sessionArrays :: "nat \<Rightarrow> Session list"
  nextRef :: nat

definition spreadRules :: "Heap \<Rightarrow> nat \<Rightarrow> Heap \<times> nat" where
  "spreadRules h r =
     (h\<lparr>ruleArrays := (ruleArrays h)(nextRef h := ruleArrays h r),
        nextRef := Suc (nextRef h)\<rparr>,
      nextRef h)"

definition sortInPlace :: "Heap \<Rightarrow> nat \<Rightarrow> Heap" where
  "sortInPlace h r = h\<lparr>ruleArrays := (ruleArrays h)(r := sort_key updatedAt (ruleArrays h r))\<rparr>"

definition resolveDayH :: "Zone \<Rightarrow> Heap \<Rightarrow> nat \<Rightarrow> nat \<Rightarrow> Date \<Rightarrow> Heap \<times> DayAvailability" where
  "resolveDayH z h rulesRef sessionsRef currentDate =
     (let slots0 = generateDaySlots z currentDate;
          copied = spreadRules h rulesRef;
          h2 = sortInPlace (fst copied) (snd copied);
          sortedRules = ruleArrays h2 (snd copied);
          sessions = sessionArrays h2 sessionsRef
      in (h2,
          \<lparr>date = format_date z currentDate,
           dayName = format_EEE z currentDate,
           slots = map (resolveSlot z sortedRules sessions currentDate) slots0\<rparr>))"

function dayLoopH ::
  "Zone \<Rightarrow> Heap \<Rightarrow> nat \<Rightarrow> nat \<Rightarrow> Date \<Rightarrow> Date \<Rightarrow> Heap \<times> DayAvailability list"
where
  "dayLoopH z h rulesRef sessionsRef currentDate endT =
     (if isBefore currentDate endT \<or> currentDate = endT
      then (let resolved = resolveDayH z h rulesRef sessionsRef currentDate;
                rest = dayLoopH z (fst resolved) rulesRef sessionsRef
                         (addMinutes currentDate (24 * 60)) endT
            in (fst rest, snd resolved # snd rest))
      else (h, []))"
  by pat_completeness auto
termination
  by (relation "measure (\<lambda>(z, h, rulesRef, sessionsRef, currentDate, endT).
                  nat (endT - currentDate + 1))")
     (auto simp: isBefore_def addMinutes_def MS_PER_MINUTE_def)

declare dayLoopH.simps [simp del]

definition calculateAvailabilityH ::
  "Zone \<Rightarrow> Heap \<Rightarrow> nat \<Rightarrow> nat \<Rightarrow> Date \<Rightarrow> Date \<Rightarrow> Heap \<times> DayAvailability list" where
  "calculateAvailabilityH z h rulesRef sessionsRef startDate endDate =
     dayLoopH z h rulesRef sessionsRef (startOfDay z startDate) (endOfDay z endDate)"

section \<open>Summary aggregator\<close>

text \<open>
  The \<open>Map\<close> from engineer names to resolved days is a list of entries in insertion order;
  the keys of a \<open>Map\<close> are distinct. \<open>summaryStep\<close> is the body of the loop over its
  entries.
\<close>

record AvailabilitySummary =
  available :: "string list"
  maybe :: "string list"
  unavailable :: "string list"
  booked :: "string list"
  not_set :: "string list"

definition emptySummary :: AvailabilitySummary where
  "emptySummary = \<lparr>available = [], maybe = [], unavailable = [], booked = [], not_set = []\<rparr>"

definition relevantSlots :: "int option \<Rightarrow> int option \<Rightarrow> DayAvailability \<Rightarrow> TimeSlot list" where
  "relevantSlots startMinutes endMinutes targetDay =
     filter (\<lambda>slot. let slotMinutes = timeToMinutes (time slot)
                    in ge_js slotMinutes startMinutes \<and> lt_js slotMinutes endMinutes)
            (slots targetDay)"

definition summaryStep ::
  "int \<Rightarrow> int option \<Rightarrow> int option \<Rightarrow> AvailabilitySummary
     \<Rightarrow> string \<times> DayAvailability list \<Rightarrow> AvailabilitySummary" where
  "summaryStep targetDate startMinutes endMinutes summary entry =
     (case entry of (engineerName, days) \<Rightarrow>
        (case find (\<lambda>d. date d = targetDate) days of
           None \<Rightarrow> summary\<lparr>not_set := not_set summary @ [engineerName]\<rparr>
         | Some targetDay \<Rightarrow>
             (let relevant = relevantSlots startMinutes endMinutes targetDay
              in if length relevant = 0
                 then summary\<lparr>not_set := not_set summary @ [engineerName]\<rparr>
                 else
                   (let statuses = map status relevant
                    in if Booked \<in> set statuses
                       then summary\<lparr>booked := booked summary @ [engineerName]\<rparr>
                       else if Unavailable \<in> set statuses
                       then summary\<lparr>unavailable := unavailable summary @ [engineerName]\<rparr>
                       else if list_ex (\<lambda>s. s = Blank) statuses
                       then (if list_all (\<lambda>s. s = Blank) statuses
                             then summary\<lparr>not_set := not_set summary @ [engineerName]\<rparr>
                             else if Maybe \<in> set statuses
                             then summary\<lparr>maybe := maybe summary @ [engineerName]\<rparr>
                             else if Available \<in> set statuses
                             then summary\<lparr>available := available summary @ [engineerName]\<rparr>
                             else summary\<lparr>not_set := not_set summary @ [engineerName]\<rparr>)
                       else if Maybe \<in> set statuses
                       then summary\<lparr>maybe := maybe summary @ [engineerName]\<rparr>
                       else if list_all (\<lambda>s. s = Available) statuses
                       then summary\<lparr>available := available summary @ [engineerName]\<rparr>
                       else summary\<lparr>not_set := not_set summary @ [engineerName]\<rparr>))))"

definition getAvailabilitySummary ::
  "(string \<times> DayAvailability list) list \<Rightarrow> int \<Rightarrow> string \<Rightarrow> string \<Rightarrow> AvailabilitySummary" where
  "getAvailabilitySummary engineersAvailability targetDate windowStart windowEnd =
     foldl (summaryStep targetDate (timeToMinutes windowStart) (timeToMinutes windowEnd))
       emptySummary engineersAvailability"

section \<open>Chatbot write endpoint\<close>

text \<open>
  The decisions of the handler of \<open>pages/api/chatbot.ts\<close>. The list of engineers is what
  \<open>getEngineers\<close> returned; a \<open>Response\<close> is either the status code of an error response or
  the rule that the handler hands to \<open>createAvailabilityRule\<close> (answered with 201). Failures
  of the store are outside the model. The request's \<open>date\<close> is the day number of a
  well-formed date string, and \<open>LocalDateTime\<close> stands for the string
  \<open>date + 'T' + time + ':00'\<close>. \<open>toLowerCase\<close> covers ASCII letters; \<open>js_lt\<close> is the
  comparison of strings by code units.
\<close>

record Engineer =
  eng_id :: string
  eng_name :: string
  eng_active :: bool

record ChatbotRequest =
  req_engineer :: "string option"
  req_status :: "RuleStatus option"
  req_date :: "int option"
  req_start_time :: "string option"
  req_end_time :: "string option"
  req_days :: "string list option"
  req_effective_from :: "int option"
  req_effective_until :: "int option"

record LocalDateTime =
  ldt_date :: int
  ldt_time :: string

record NewRule =
  new_engineerId :: string
  new_status :: RuleStatus
  new_ruleType :: RuleType
  new_startDateTime :: "LocalDateTime option"
  new_endDateTime :: "LocalDateTime option"
  new_startTime :: "string option"
  new_endTime :: "string option"
  new_recurrenceDays :: "string list option"
  new_effectiveFrom :: "int option"
  new_effectiveUntil :: "int option"
  new_source :: Source

datatype Response = Failure nat | Created NewRule

definition toLowerCase :: "string \<Rightarrow> string" where
  "toLowerCase s =
     map (\<lambda>c. if 65 \<le> (of_char c :: nat) \<and> (of_char c :: nat) \<le> 90
               then char_of (of_char c + 32 :: nat) else c) s"

fun js_lt :: "string \<Rightarrow> string \<Rightarrow> bool" where
  "js_lt [] [] = False"
| "js_lt [] (y # ys) = True"
| "js_lt (x # xs) [] = False"
| "js_lt (x # xs) (y # ys) =
     (if x = y then js_lt xs ys else (of_char x :: nat) < of_char y)"

definition parseISO_date :: "Zone \<Rightarrow> int \<Rightarrow> Date" where
  "parseISO_date z day = fromLocal z (day * MS_PER_DAY)"

definition nextDay :: "Zone \<Rightarrow> int \<Rightarrow> int" where
  "nextDay z day = format_date z (addMinutes (parseISO_date z day) (24 * 60))"

definition isRecurringRequest :: "ChatbotRequest \<Rightarrow> bool" where
  "isRecurringRequest body =
     (case req_days body of None \<Rightarrow> False | Some days \<Rightarrow> length days > 0)"

definition recurringBranch :: "Engineer \<Rightarrow> ChatbotRequest \<Rightarrow> Response" where
  "recurringBranch engineer body =
     (if falsy (req_start_time body) \<or> falsy (req_end_time body) then Failure 400
      else Created
        \<lparr>new_engineerId = eng_id engineer, new_status = the (req_status body),
         new_ruleType = Recurring,
         new_startDateTime = None, new_endDateTime = None,
         new_startTime = req_start_time body, new_endTime = req_end_time body,
         new_recurrenceDays = req_days body,
         new_effectiveFrom = req_effective_from body,
         new_effectiveUntil = req_effective_until body,
         new_source = Chatbot\<rparr>)"

definition oneTimeBranch :: "Zone \<Rightarrow> Engineer \<Rightarrow> ChatbotRequest \<Rightarrow> Response" where
  "oneTimeBranch z engineer body =
     (if req_date body = None \<or> falsy (req_start_time body) \<or> falsy (req_end_time body)
      then Failure 400
      else
        (let startDateTime =
               \<lparr>ldt_date = the (req_date body), ldt_time = the (req_start_time body)\<rparr>;
             endDateTime =
               \<lparr>ldt_date = the (req_date body), ldt_time = the (req_end_time body)\<rparr>;
             adjustedEndDateTime =
               (if js_lt (the (req_end_time body)) (the (req_start_time body))
                then \<lparr>ldt_date = nextDay z (the (req_date body)),
                      ldt_time = the (req_end_time body)\<rparr>
                else endDateTime)
         in Created
           \<lparr>new_engineerId = eng_id engineer, new_status = the (req_status body),
            new_ruleType = OneTime,
            new_startDateTime = Some startDateTime,
            new_endDateTime = Some adjustedEndDateTime,
            new_startTime = None, new_endTime = None,
            new_recurrenceDays = None,
            new_effectiveFrom = None, new_effectiveUntil = None,
            new_source = Chatbot\<rparr>))"

definition handler :: "Zone \<Rightarrow> Engineer list \<Rightarrow> string \<Rightarrow> ChatbotRequest \<Rightarrow> Response" where
  "handler z engineers method body =
     (if method \<noteq> ''POST'' then Failure 405
      else if falsy (req_engineer body) \<or> req_status body = None then Failure 400
      else
        case find (\<lambda>e. toLowerCase (eng_name e) = toLowerCase (the (req_engineer body))
                       \<or> eng_id e = the (req_engineer body)) engineers of
          None \<Rightarrow> Failure 404
        | Some engineer \<Rightarrow>
            if isRecurringRequest body then recurringBranch engineer body
            else oneTimeBranch z engineer body)"

section \<open>Notions used to state the properties\<close>

text \<open>
  A rule applies to a slot of the day that the loop resolves at \<open>currentDate\<close> when one
  of the two tests of the inner loop of \<open>calculateAvailability\<close> succeeds for it.
  \<open>dayStarts\<close> lists the values that the loop variable \<open>currentDate\<close> takes.
\<close>

definition ruleApplies :: "Zone \<Rightarrow> AvailabilityRule \<Rightarrow> Date \<Rightarrow> TimeSlot \<Rightarrow> bool" where
  "ruleApplies z rule currentDate slot =
     ((ruleType rule = OneTime
         \<and> oneTimeRuleApplies rule (datetime slot) (addMinutes (datetime slot) SLOT_MINUTES))
      \<or> (ruleType rule = Recurring \<and> recurringRuleApplies z rule currentDate
         \<and> recurringSlotApplies rule currentDate (time slot)))"

function dayStarts :: "Date \<Rightarrow> Date \<Rightarrow> Date list" where
  "dayStarts currentDate endT =
     (if isBefore currentDate endT \<or> currentDate = endT
      then currentDate # dayStarts (addMinutes currentDate (24 * 60)) endT
      else [])"
  by pat_completeness auto
termination
  by (relation "measure (\<lambda>(currentDate, endT). nat (endT - currentDate + 1))")
     (auto simp: isBefore_def addMinutes_def MS_PER_MINUTE_def)

declare dayStarts.simps [simp del]

definition currentDates :: "Zone \<Rightarrow> Date \<Rightarrow> Date \<Rightarrow> Date list" where
  "currentDates z startDate endDate = dayStarts (startOfDay z startDate) (endOfDay z endDate)"

text \<open>
  The precedence of section 4.3 of the specification, written from its words: an ordered
  list of conditions, evaluated in order, the first match wins. \<open>classifyEngineer\<close> adds
  the two cases that come before it (no day for the target date, no slot in the window).
\<close>

datatype Bucket = BAvailable | BMaybe | BUnavailable | BBooked | BNotSet

fun bucketList :: "Bucket \<Rightarrow> AvailabilitySummary \<Rightarrow> string list" where
  "bucketList BAvailable s = available s"
| "bucketList BMaybe s = maybe s"
| "bucketList BUnavailable s = unavailable s"
| "bucketList BBooked s = booked s"
| "bucketList BNotSet s = not_set s"

fun push :: "Bucket \<Rightarrow> string \<Rightarrow> AvailabilitySummary \<Rightarrow> AvailabilitySummary" where
  "push BAvailable n s = s\<lparr>available := available s @ [n]\<rparr>"
| "push BMaybe n s = s\<lparr>maybe := maybe s @ [n]\<rparr>"
| "push BUnavailable n s = s\<lparr>unavailable := unavailable s @ [n]\<rparr>"
| "push BBooked n s = s\<lparr>booked := booked s @ [n]\<rparr>"
| "push BNotSet n s = s\<lparr>not_set := not_set s @ [n]\<rparr>"

fun firstMatch :: "(bool \<times> 'a) list \<Rightarrow> 'a \<Rightarrow> 'a" where
  "firstMatch [] dflt = dflt"
| "firstMatch ((c, b) # rest) dflt = (if c then b else firstMatch rest dflt)"

definition anySlot :: "SlotStatus \<Rightarrow> SlotStatus list \<Rightarrow> bool" where
  "anySlot st statuses = list_ex (\<lambda>s. s = st) statuses"

definition allSlots :: "SlotStatus \<Rightarrow> SlotStatus list \<Rightarrow> bool" where
  "allSlots st statuses = list_all (\<lambda>s. s = st) statuses"

definition precedence :: "SlotStatus list \<Rightarrow> Bucket" where
  "precedence statuses =
     firstMatch
       [(anySlot Booked statuses, BBooked),
        (anySlot Unavailable statuses, BUnavailable),
        (anySlot Blank statuses \<and> allSlots Blank statuses, BNotSet),
        (anySlot Blank statuses \<and> anySlot Maybe statuses, BMaybe),
        (anySlot Blank statuses \<and> anySlot Available statuses, BAvailable),
        (anySlot Blank statuses, BNotSet),
        (anySlot Maybe statuses, BMaybe),
        (allSlots Available statuses, BAvailable)]
       BNotSet"

definition classifyEngineer ::
  "int \<Rightarrow> int option \<Rightarrow> int option \<Rightarrow> DayAvailability list \<Rightarrow> Bucket" where
  "classifyEngineer targetDate startMinutes endMinutes days =
     (case find (\<lambda>d. date d = targetDate) days of
        None \<Rightarrow> BNotSet
      | Some targetDay \<Rightarrow>
          if relevantSlots startMinutes endMinutes targetDay = [] then BNotSet
          else precedence (map status (relevantSlots startMinutes endMinutes targetDay)))"

definition allBuckets :: "AvailabilitySummary \<Rightarrow> string list" where
  "allBuckets s = available s @ maybe s @ unavailable s @ booked s @ not_set s"

section \<open>Example inputs\<close>

text \<open>
  Concrete inputs on which the functions are evaluated below. \<open>exDay\<close> is the instant
  2026-10-30T00:00Z, a Friday; the offsets of the example rules and sessions are minutes
  after it.
\<close>

definition exDay :: Date where
  "exDay = 20756 * 86400000"

definition exOneTime :: "string \<Rightarrow> RuleStatus \<Rightarrow> int \<Rightarrow> int \<Rightarrow> int \<Rightarrow> AvailabilityRule" where
  "exOneTime rid st fromMin toMin upd =
     \<lparr>rule_id = rid, rule_engineerId = ''eng1'', rule_status = st, ruleType = OneTime,
      startDateTime = Some (addMinutes exDay fromMin), endDateTime = Some (addMinutes exDay toMin),
      startTime = None, endTime = None, recurrenceDays = None,
      effectiveFrom = None, effectiveUntil = None, rule_source = WebApp, updatedAt = upd\<rparr>"

definition exSession :: "string \<Rightarrow> int \<Rightarrow> int \<Rightarrow> Session" where
  "exSession sid fromMin toMin =
     \<lparr>session_id = sid, session_title = ''mix'', session_engineerId = ''eng1'',
      session_start = addMinutes exDay fromMin, session_end = addMinutes exDay toMin\<rparr>"

definition exRules3 :: "AvailabilityRule list" where
  "exRules3 = [exOneTime ''r3'' RUnavailable 0 60 3, exOneTime ''r1'' RAvailable 0 60 1,
               exOneTime ''r2'' RMaybe 0 60 2]"

definition exRecurring ::
  "string \<Rightarrow> RuleStatus \<Rightarrow> string list \<Rightarrow> string \<Rightarrow> string \<Rightarrow> int \<Rightarrow> AvailabilityRule" where
  "exRecurring rid st days fromTime toTime upd =
     \<lparr>rule_id = rid, rule_engineerId = ''eng1'', rule_status = st, ruleType = Recurring,
      startDateTime = None, endDateTime = None,
      startTime = Some fromTime, endTime = Some toTime, recurrenceDays = Some days,
      effectiveFrom = None, effectiveUntil = None, rule_source = WebApp, updatedAt = upd\<rparr>"

definition exEngineers :: "(string \<times> DayAvailability list) list" where
  "exEngineers =
     [(''Ann'', calculateAvailability utc [exOneTime ''r1'' RAvailable 540 600 1] [] exDay exDay),
      (''Bob'', []),
      (''Cyd'', calculateAvailability utc [exOneTime ''r2'' RAvailable 540 660 1]
                  [exSession ''s1'' 600 630] exDay exDay)]"

definition exStaff :: "Engineer list" where
  "exStaff = [\<lparr>eng_id = ''rec1'', eng_name = ''Ann'', eng_active = True\<rparr>]"

definition exOvernightRequest :: ChatbotRequest where
  "exOvernightRequest =
     \<lparr>req_engineer = Some ''ann'', req_status = Some RUnavailable, req_date = Some 20758,
      req_start_time = Some ''22:00'', req_end_time = Some ''04:00'', req_days = None,
      req_effective_from = None, req_effective_until = None\<rparr>"

definition exHeap :: Heap where
  "exHeap = \<lparr>ruleArrays = (\<lambda>r. if r = 0 then exRules3 else []),
             sessionArrays = (\<lambda>r. if r = 0 then [exSession ''s1'' 15 45] else []),
             nextRef = 1\<rparr>"

section \<open>Basic facts about the loops\<close>

lemma slotLoop_unfold_lt:
  "minutes < 24 * 60 \<Longrightarrow>
     slotLoop z ds minutes = blankSlot z ds minutes # slotLoop z ds (minutes + SLOT_MINUTES)"
  by (subst slotLoop.simps) simp

lemma slotLoop_unfold_ge: "\<not> minutes < 24 * 60 \<Longrightarrow> slotLoop z ds minutes = []"
  by (subst slotLoop.simps) simp

lemma slotLoop_map:
  "k \<le> 48 \<Longrightarrow>
     slotLoop z ds (30 * int k) = map (\<lambda>i. blankSlot z ds (30 * int i)) [k..<48]"
proof (induction "48 - k" arbitrary: k)
  case 0
  then have "k = 48" by simp
  then show ?case by (simp add: slotLoop_unfold_ge)
next
  case (Suc n)
  from Suc.hyps(2) have k: "k < 48" and n: "n = 48 - Suc k" and le: "Suc k \<le> 48"
    by simp_all
  have ih: "slotLoop z ds (30 * int (Suc k)) = map (\<lambda>i. blankSlot z ds (30 * int i)) [Suc k..<48]"
    by (rule Suc.hyps(1) [OF n le])
  have e: "30 * int k + SLOT_MINUTES = 30 * int (Suc k)"
    by (simp add: SLOT_MINUTES_def)
  have "slotLoop z ds (30 * int k) = blankSlot z ds (30 * int k) # slotLoop z ds (30 * int k + SLOT_MINUTES)"
    using k by (intro slotLoop_unfold_lt) simp
  also have "\<dots> = blankSlot z ds (30 * int k) # map (\<lambda>i. blankSlot z ds (30 * int i)) [Suc k..<48]"
    unfolding e ih ..
  also have "\<dots> = map (\<lambda>i. blankSlot z ds (30 * int i)) [k..<48]"
    using k by (simp add: upt_conv_Cons)
  finally show ?case .
qed


lemma generateDaySlots_map:
  "generateDaySlots z d = map (\<lambda>i. blankSlot z (startOfDay z d) (30 * int i)) [0..<48]"
  using slotLoop_map [of 0 z "startOfDay z d"] by (simp add: generateDaySlots_def)

lemma generateDaySlots_length: "length (generateDaySlots z d) = 48"
  by (simp add: generateDaySlots_map)

lemma applyRule_eq:
  "applyRule z cur (datetime s0) (addMinutes (datetime s0) SLOT_MINUTES) slot rule =
     (if ruleApplies z rule cur (s0\<lparr>time := time slot\<rparr>)
      then slot\<lparr>status := slotStatus (rule_status rule), ruleId := Some (rule_id rule)\<rparr>
      else slot)"
  by (cases "ruleType rule") (simp_all add: applyRule_def ruleApplies_def Let_def)

lemma applyRule_time [simp]: "time (applyRule z cur ss se slot rule) = time slot"
  by (simp add: applyRule_def Let_def)

lemma applyRule_datetime [simp]: "datetime (applyRule z cur ss se slot rule) = datetime slot"
  by (simp add: applyRule_def Let_def)

lemma applyRule_sessionId [simp]: "sessionId (applyRule z cur ss se slot rule) = sessionId slot"
  by (simp add: applyRule_def Let_def)

lemma foldl_applyRule_time [simp]:
  "time (foldl (applyRule z cur ss se) slot rs) = time slot"
  by (induction rs arbitrary: slot) simp_all

lemma foldl_applyRule_datetime [simp]:
  "datetime (foldl (applyRule z cur ss se) slot rs) = datetime slot"
  by (induction rs arbitrary: slot) simp_all

lemma foldl_applyRule_sessionId [simp]:
  "sessionId (foldl (applyRule z cur ss se) slot rs) = sessionId slot"
  by (induction rs arbitrary: slot) simp_all

lemma foldl_applyRule_last:
  "foldl (applyRule z cur (datetime slot) (addMinutes (datetime slot) SLOT_MINUTES)) slot rs =
     (case filter (\<lambda>r. ruleApplies z r cur slot) rs of
        [] \<Rightarrow> slot
      | f # fs \<Rightarrow> slot\<lparr>status := slotStatus (rule_status (last (f # fs))),
                        ruleId := Some (rule_id (last (f # fs)))\<rparr>)"
proof (induction rs rule: rev_induct)
  case Nil
  show ?case by simp
next
  case (snoc r rs)
  have t: "slot\<lparr>time := time slot\<rparr> = slot" by simp
  show ?case
    using snoc applyRule_eq [of z cur slot "foldl (applyRule z cur (datetime slot) (addMinutes (datetime slot) SLOT_MINUTES)) slot rs" r]
    by (auto simp: t split: list.splits)
qed

lemma dayLoop_map:
  "dayLoop z rules sessions cur endT = map (resolveDay z rules sessions) (dayStarts cur endT)"
proof (induction cur endT rule: dayStarts.induct)
  case (1 cur endT)
  show ?case
    using 1 by (subst dayLoop.simps, subst dayStarts.simps) simp
qed

lemma calculateAvailability_map:
  "calculateAvailability z rules sessions a b =
     map (resolveDay z rules sessions) (currentDates z a b)"
  by (simp add: calculateAvailability_def currentDates_def dayLoop_map)

section \<open>Properties of the rule resolution engine\<close>

lemma blankSlot_fields [simp]:
  "status (blankSlot z ds m) = Blank" "ruleId (blankSlot z ds m) = None"
  "sessionId (blankSlot z ds m) = None" "datetime (blankSlot z ds m) = addMinutes ds m"
  "time (blankSlot z ds m) = format_HHmm z (addMinutes ds m)"
  by (simp_all add: blankSlot_def Let_def)

lemma generated_slot_blank:
  "s0 \<in> set (generateDaySlots z d) \<Longrightarrow>
     status s0 = Blank \<and> ruleId s0 = None \<and> sessionId s0 = None"
  by (auto simp: generateDaySlots_map)

lemma applySessions_time [simp]: "time (applySessions sessions ss se slot) = time slot"
  by (simp add: applySessions_def split: option.splits)

lemma applySessions_datetime [simp]:
  "datetime (applySessions sessions ss se slot) = datetime slot"
  by (simp add: applySessions_def split: option.splits)

lemma applySessions_ruleId [simp]: "ruleId (applySessions sessions ss se slot) = ruleId slot"
  by (simp add: applySessions_def split: option.splits)

lemma resolveSlot_time [simp]: "time (resolveSlot z srs sessions cur s0) = time s0"
  by (simp add: resolveSlot_def Let_def)

lemma resolveSlot_datetime [simp]: "datetime (resolveSlot z srs sessions cur s0) = datetime s0"
  by (simp add: resolveSlot_def Let_def)

lemma ruleApplies_cong:
  "time s = time s' \<Longrightarrow> datetime s = datetime s' \<Longrightarrow>
     ruleApplies z rule cur s = ruleApplies z rule cur s'"
  by (simp add: ruleApplies_def)

lemma resolved_slot_origin:
  assumes "i < length (calculateAvailability z rules sessions a b)"
    and "slot \<in> set (slots (calculateAvailability z rules sessions a b ! i))"
  obtains s0 where "s0 \<in> set (generateDaySlots z (currentDates z a b ! i))"
    and "slot = resolveSlot z (sortByUpdatedAt rules) sessions (currentDates z a b ! i) s0"
  using assms by (auto simp: calculateAvailability_map resolveDay_def)

text \<open>
  Claim C7. A slot of a resolved day that no rule of the input applies to and that no
  session overlaps is Blank in the result, with neither \<open>ruleId\<close> nor \<open>sessionId\<close> set:
  it is the freshly generated slot, unchanged.
\<close>

theorem uncovered_slot_stays_blank:
  assumes i: "i < length (calculateAvailability z rules sessions startDate endDate)"
    and slot: "slot \<in> set (slots (calculateAvailability z rules sessions startDate endDate ! i))"
    and norule: "\<forall>rule\<in>set rules. \<not> ruleApplies z rule (currentDates z startDate endDate ! i) slot"
    and nosession: "\<forall>s\<in>set sessions.
        \<not> (datetime slot < session_end s \<and> session_start s < datetime slot + 30 * 60000)"
  shows "status slot = Blank \<and> ruleId slot = None \<and> sessionId slot = None"
proof -
  let ?cur = "currentDates z startDate endDate ! i"
  from i slot obtain s0 where s0: "s0 \<in> set (generateDaySlots z ?cur)"
    and eq: "slot = resolveSlot z (sortByUpdatedAt rules) sessions ?cur s0"
    by (rule resolved_slot_origin)
  have td: "time slot = time s0" "datetime slot = datetime s0"
    by (simp_all add: eq)
  have "\<forall>rule\<in>set rules. \<not> ruleApplies z rule ?cur s0"
    using norule ruleApplies_cong [OF td] by blast
  then have flt: "filter (\<lambda>r. ruleApplies z r ?cur s0) (sortByUpdatedAt rules) = []"
    by (simp add: sortByUpdatedAt_def filter_empty_conv)
  have fnd: "find (\<lambda>session. sessionCoversSlot session (datetime s0)
               (addMinutes (datetime s0) SLOT_MINUTES)) sessions = None"
    using nosession
    by (simp add: find_None_iff td sessionCoversSlot_def isBefore_def isAfter_def
        addMinutes_def SLOT_MINUTES_def MS_PER_MINUTE_def)
  have "slot = s0"
    unfolding eq resolveSlot_def Let_def applySessions_def fnd foldl_applyRule_last flt
    by simp
  then show ?thesis
    using generated_slot_blank [OF s0] by simp
qed

text \<open>
  Claim C3. If the half-open 30-minute interval of a slot of a resolved day meets the
  interval \<open>[start, end)\<close> of some session of the input, the slot is Booked in the result
  and its \<open>sessionId\<close> is the id of a session that covers it, whatever the rules, their
  statuses and their \<open>updatedAt\<close> are.
\<close>

theorem session_overlap_books_slot:
  assumes i: "i < length (calculateAvailability z rules sessions startDate endDate)"
    and slot: "slot \<in> set (slots (calculateAvailability z rules sessions startDate endDate ! i))"
    and S: "S \<in> set sessions"
    and overlap: "{datetime slot ..< datetime slot + 30 * 60000}
                    \<inter> {session_start S ..< session_end S} \<noteq> {}"
  shows "status slot = Booked \<and>
         (\<exists>S'\<in>set sessions.
            datetime slot < session_end S' \<and> session_start S' < datetime slot + 30 * 60000
            \<and> sessionId slot = Some (session_id S'))"
proof -
  let ?cur = "currentDates z startDate endDate ! i"
  from i slot obtain s0 where s0: "s0 \<in> set (generateDaySlots z ?cur)"
    and eq: "slot = resolveSlot z (sortByUpdatedAt rules) sessions ?cur s0"
    by (rule resolved_slot_origin)
  have td: "datetime slot = datetime s0"
    by (simp add: eq)
  let ?P = "\<lambda>session. sessionCoversSlot session (datetime s0)
               (addMinutes (datetime s0) SLOT_MINUTES)"
  from overlap have "datetime slot < session_end S \<and> session_start S < datetime slot + 30 * 60000"
    by auto
  then have "?P S"
    by (simp add: td sessionCoversSlot_def isBefore_def isAfter_def
        addMinutes_def SLOT_MINUTES_def MS_PER_MINUTE_def)
  with S have "find ?P sessions \<noteq> None"
    by (auto simp: find_None_iff)
  then obtain S' where fnd: "find ?P sessions = Some S'"
    by auto
  then have S': "S' \<in> set sessions" "?P S'"
    by (auto simp: find_Some_iff)
  have "status slot = Booked" "sessionId slot = Some (session_id S')"
    unfolding eq resolveSlot_def Let_def applySessions_def fnd by simp_all
  moreover have "datetime slot < session_end S' \<and> session_start S' < datetime slot + 30 * 60000"
    using S'(2)
    by (simp add: td sessionCoversSlot_def isBefore_def isAfter_def
        addMinutes_def SLOT_MINUTES_def MS_PER_MINUTE_def)
  ultimately show ?thesis
    using S'(1) by blast
qed

lemma sorted_key_last:
  "sorted (map f xs) \<Longrightarrow> x \<in> set xs \<Longrightarrow> f x \<le> f (last xs)"
proof (induction xs rule: rev_induct)
  case Nil
  then show ?case by simp
next
  case (snoc y ys)
  then show ?case by (auto simp: sorted_append)
qed

lemma last_applicable_is_latest:
  assumes R2: "R2 \<in> set rules" and app: "P R2"
    and latest: "\<forall>R\<in>set rules. P R \<longrightarrow> R = R2 \<or> updatedAt R < updatedAt R2"
  shows "filter P (sortByUpdatedAt rules) \<noteq> [] \<and> last (filter P (sortByUpdatedAt rules)) = R2"
proof -
  let ?fs = "filter P (sortByUpdatedAt rules)"
  have fs: "?fs = sort_key updatedAt (filter P rules)"
    by (simp add: sortByUpdatedAt_def filter_sort)
  have mem: "R2 \<in> set ?fs"
    using R2 app by (simp add: sortByUpdatedAt_def)
  then have ne: "?fs \<noteq> []" by (auto simp: filter_empty_conv)
  have srt: "sorted (map updatedAt ?fs)"
    unfolding fs by simp
  have "updatedAt R2 \<le> updatedAt (last ?fs)"
    using sorted_key_last [OF srt mem] .
  moreover have "last ?fs \<in> set ?fs"
    using ne by (rule last_in_set)
  then have "last ?fs \<in> set rules" "P (last ?fs)"
    by (simp_all add: sortByUpdatedAt_def)
  ultimately have "last ?fs = R2"
    using latest by force
  with ne show ?thesis by simp
qed

text \<open>
  Claim C1, as amended. Let \<open>R2\<close> be a rule of the input that applies to a slot of a
  resolved day, and let every other rule of the input that applies to that slot have a
  strictly smaller \<open>updatedAt\<close>. Then the slot's \<open>ruleId\<close> is the id of \<open>R2\<close>, and its status
  is the status of \<open>R2\<close> unless a session overlaps the slot, in which case it is Booked.
  No hypothesis restricts the rule types or the order of the input array.
\<close>

theorem latest_applicable_rule_wins:
  assumes i: "i < length (calculateAvailability z rules sessions startDate endDate)"
    and slot: "slot \<in> set (slots (calculateAvailability z rules sessions startDate endDate ! i))"
    and R2: "R2 \<in> set rules"
    and app: "ruleApplies z R2 (currentDates z startDate endDate ! i) slot"
    and latest: "\<forall>R\<in>set rules. ruleApplies z R (currentDates z startDate endDate ! i) slot
                   \<longrightarrow> R = R2 \<or> updatedAt R < updatedAt R2"
  shows "ruleId slot = Some (rule_id R2) \<and>
         status slot =
           (if \<exists>S\<in>set sessions. datetime slot < session_end S
                  \<and> session_start S < datetime slot + 30 * 60000
            then Booked else slotStatus (rule_status R2))"
proof -
  let ?cur = "currentDates z startDate endDate ! i"
  from i slot obtain s0 where s0: "s0 \<in> set (generateDaySlots z ?cur)"
    and eq: "slot = resolveSlot z (sortByUpdatedAt rules) sessions ?cur s0"
    by (rule resolved_slot_origin)
  have td: "time slot = time s0" "datetime slot = datetime s0"
    by (simp_all add: eq)
  have same: "ruleApplies z R ?cur slot = ruleApplies z R ?cur s0" for R
    by (rule ruleApplies_cong [OF td])
  let ?fs = "filter (\<lambda>r. ruleApplies z r ?cur s0) (sortByUpdatedAt rules)"
  have win: "?fs \<noteq> [] \<and> last ?fs = R2"
    using last_applicable_is_latest [of R2 rules "\<lambda>r. ruleApplies z r ?cur s0"]
      R2 app latest by (simp add: same)
  let ?folded = "foldl (applyRule z ?cur (datetime s0) (addMinutes (datetime s0) SLOT_MINUTES))
                   s0 (sortByUpdatedAt rules)"
  have folded: "?folded = s0\<lparr>status := slotStatus (rule_status R2), ruleId := Some (rule_id R2)\<rparr>"
    using win unfolding foldl_applyRule_last by (auto split: list.splits)
  let ?P = "\<lambda>session. sessionCoversSlot session (datetime s0)
               (addMinutes (datetime s0) SLOT_MINUTES)"
  have P: "?P S \<longleftrightarrow> datetime slot < session_end S
             \<and> session_start S < datetime slot + 30 * 60000" for S
    by (simp add: td sessionCoversSlot_def isBefore_def isAfter_def
        addMinutes_def SLOT_MINUTES_def MS_PER_MINUTE_def)
  have slot_eq: "slot = applySessions sessions (datetime s0)
                   (addMinutes (datetime s0) SLOT_MINUTES) ?folded"
    by (simp add: eq resolveSlot_def Let_def)
  have rid: "ruleId slot = Some (rule_id R2)"
    by (subst slot_eq) (simp add: folded)
  have st: "status slot = (if \<exists>S\<in>set sessions. ?P S then Booked
                           else slotStatus (rule_status R2))"
  proof (cases "find ?P sessions")
    case None
    then have "\<not> (\<exists>S\<in>set sessions. ?P S)"
      by (simp add: find_None_iff)
    then show ?thesis
      by (subst slot_eq) (simp add: applySessions_def None folded)
  next
    case (Some S')
    then have "\<exists>S\<in>set sessions. ?P S"
      by (auto simp: find_Some_iff)
    then show ?thesis
      by (subst slot_eq) (simp add: applySessions_def Some)
  qed
  show ?thesis
    using rid st by (simp add: P)
qed

text \<open>
  The claim C1 as stated, for every pair of applicable rules, fails when a third, more
  recent rule applies to the slot too: \<open>r1\<close> and \<open>r2\<close> both apply and \<open>r2\<close> is the more recent
  of the two, yet the slot has the status and the id of \<open>r3\<close>.
\<close>

theorem pairwise_recency_counterexample:
  "exOneTime ''r1'' RAvailable 0 60 1 \<in> set exRules3 \<and>
   exOneTime ''r2'' RMaybe 0 60 2 \<in> set exRules3 \<and>
   updatedAt (exOneTime ''r1'' RAvailable 0 60 1) < updatedAt (exOneTime ''r2'' RMaybe 0 60 2) \<and>
   ruleApplies utc (exOneTime ''r1'' RAvailable 0 60 1) (currentDates utc exDay exDay ! 0)
     (slots (calculateAvailability utc exRules3 [] exDay exDay ! 0) ! 0) \<and>
   ruleApplies utc (exOneTime ''r2'' RMaybe 0 60 2) (currentDates utc exDay exDay ! 0)
     (slots (calculateAvailability utc exRules3 [] exDay exDay ! 0) ! 0) \<and>
   status (slots (calculateAvailability utc exRules3 [] exDay exDay ! 0) ! 0)
     \<noteq> slotStatus (rule_status (exOneTime ''r2'' RMaybe 0 60 2)) \<and>
   ruleId (slots (calculateAvailability utc exRules3 [] exDay exDay ! 0) ! 0)
     \<noteq> Some (rule_id (exOneTime ''r2'' RMaybe 0 60 2))"
  by code_simp

theorem latest_applicable_rule_wins_witness:
  "ruleApplies utc (exOneTime ''r3'' RUnavailable 0 60 3) (currentDates utc exDay exDay ! 0)
     (slots (calculateAvailability utc exRules3 [] exDay exDay ! 0) ! 0) \<and>
   ruleId (slots (calculateAvailability utc exRules3 [] exDay exDay ! 0) ! 0) = Some ''r3'' \<and>
   status (slots (calculateAvailability utc exRules3 [] exDay exDay ! 0) ! 0) = Unavailable"
proof -
  let ?out = "calculateAvailability utc exRules3 [] exDay exDay"
  let ?slot = "slots (?out ! 0) ! 0"
  let ?R = "exOneTime ''r3'' RUnavailable 0 60 3"
  have i: "0 < length ?out" by code_simp
  have mem: "?slot \<in> set (slots (?out ! 0))" by code_simp
  have R: "?R \<in> set exRules3" by code_simp
  have app: "ruleApplies utc ?R (currentDates utc exDay exDay ! 0) ?slot" by code_simp
  have latest: "\<forall>R\<in>set exRules3. ruleApplies utc R (currentDates utc exDay exDay ! 0) ?slot
                  \<longrightarrow> R = ?R \<or> updatedAt R < updatedAt ?R"
    by code_simp
  show ?thesis
    using latest_applicable_rule_wins [OF i mem R app latest] app
    by (simp add: exOneTime_def)
qed

theorem uncovered_slot_stays_blank_witness:
  "\<not> ruleApplies utc (exOneTime ''r1'' RAvailable 60 120 1) (currentDates utc exDay exDay ! 0)
          (slots (calculateAvailability utc [exOneTime ''r1'' RAvailable 60 120 1]
             [exSession ''s1'' 180 240] exDay exDay ! 0) ! 0) \<and>
   status (slots (calculateAvailability utc [exOneTime ''r1'' RAvailable 60 120 1]
             [exSession ''s1'' 180 240] exDay exDay ! 0) ! 0) = Blank \<and>
   ruleId (slots (calculateAvailability utc [exOneTime ''r1'' RAvailable 60 120 1]
             [exSession ''s1'' 180 240] exDay exDay ! 0) ! 0) = None \<and>
   sessionId (slots (calculateAvailability utc [exOneTime ''r1'' RAvailable 60 120 1]
             [exSession ''s1'' 180 240] exDay exDay ! 0) ! 0) = None"
proof -
  let ?rules = "[exOneTime ''r1'' RAvailable 60 120 1]"
  let ?sessions = "[exSession ''s1'' 180 240]"
  let ?out = "calculateAvailability utc ?rules ?sessions exDay exDay"
  let ?slot = "slots (?out ! 0) ! 0"
  have i: "0 < length ?out" by code_simp
  have mem: "?slot \<in> set (slots (?out ! 0))" by code_simp
  have norule: "\<forall>rule\<in>set ?rules.
      \<not> ruleApplies utc rule (currentDates utc exDay exDay ! 0) ?slot"
    by code_simp
  have nosession: "\<forall>s\<in>set ?sessions.
      \<not> (datetime ?slot < session_end s \<and> session_start s < datetime ?slot + 30 * 60000)"
    by code_simp
  show ?thesis
    using uncovered_slot_stays_blank [OF i mem norule nosession] norule
    by simp
qed

theorem session_overlap_books_slot_witness:
  "{datetime (slots (calculateAvailability utc exRules3 [exSession ''s1'' 15 45] exDay exDay ! 0) ! 1)
      ..< datetime (slots (calculateAvailability utc exRules3 [exSession ''s1'' 15 45] exDay exDay ! 0) ! 1)
            + 30 * 60000}
     \<inter> {session_start (exSession ''s1'' 15 45) ..< session_end (exSession ''s1'' 15 45)} \<noteq> {} \<and>
   status (slots (calculateAvailability utc exRules3 [exSession ''s1'' 15 45] exDay exDay ! 0) ! 1)
     = Booked \<and>
   sessionId (slots (calculateAvailability utc exRules3 [exSession ''s1'' 15 45] exDay exDay ! 0) ! 1)
     = Some ''s1''"
proof -
  let ?sessions = "[exSession ''s1'' 15 45]"
  let ?out = "calculateAvailability utc exRules3 ?sessions exDay exDay"
  let ?slot = "slots (?out ! 0) ! 1"
  have i: "0 < length ?out" by code_simp
  have mem: "?slot \<in> set (slots (?out ! 0))" by code_simp
  have S: "exSession ''s1'' 15 45 \<in> set ?sessions" by simp
  have dt: "datetime ?slot = 20756 * 86400000 + 30 * 60000" by code_simp
  have overlap: "{datetime ?slot ..< datetime ?slot + 30 * 60000}
     \<inter> {session_start (exSession ''s1'' 15 45) ..< session_end (exSession ''s1'' 15 45)} \<noteq> {}"
    unfolding dt
    by (simp add: exSession_def exDay_def addMinutes_def MS_PER_MINUTE_def)
  show ?thesis
    using session_overlap_books_slot [OF i mem S overlap] overlap
    by (auto simp: exSession_def)
qed

section \<open>Recurring rules and the time of day\<close>

lemma digit_cases:
  "0 \<le> d \<Longrightarrow> d \<le> 9 \<Longrightarrow>
     d = 0 \<or> d = 1 \<or> d = 2 \<or> d = 3 \<or> d = 4 \<or> d = 5 \<or> d = 6 \<or> d = 7 \<or> d = 8 \<or> d = (9::int)"
  by arith

lemma digitVal_digitChar:
  assumes "0 \<le> d" "d \<le> 9"
  shows "digitVal (digitChar d) = Some d"
  using digit_cases [OF assms]
  by (elim disjE) (simp_all add: digitVal_def digitChar_def DIGITS_def)

lemma digitChar_not_colon:
  assumes "0 \<le> d" "d \<le> 9"
  shows "digitChar d \<noteq> CHR '':''"
  using digit_cases [OF assms]
  by (elim disjE) (simp_all add: digitChar_def DIGITS_def)

lemma Number_js_pad2:
  assumes "0 \<le> n" "n < 100"
  shows "Number_js (pad2 n) = Some n"
proof -
  have a: "0 \<le> n div 10" "n div 10 \<le> 9" "0 \<le> n mod 10" "n mod 10 \<le> 9"
    using assms by simp_all
  show ?thesis
    by (simp add: Number_js_def pad2_def digitVal_digitChar [OF a(1,2)]
        digitVal_digitChar [OF a(3,4)])
qed

lemma split_colon_pad2:
  assumes "0 \<le> h" "h < 100" "0 \<le> m" "m < 100"
  shows "split_colon [] (pad2 h @ '':'' @ pad2 m) = [pad2 h, pad2 m]"
proof -
  have a: "0 \<le> h div 10" "h div 10 \<le> 9" "0 \<le> h mod 10" "h mod 10 \<le> 9"
    and b: "0 \<le> m div 10" "m div 10 \<le> 9" "0 \<le> m mod 10" "m mod 10 \<le> 9"
    using assms by simp_all
  show ?thesis
    by (simp add: pad2_def digitChar_not_colon [OF a(1,2)] digitChar_not_colon [OF a(3,4)]
        digitChar_not_colon [OF b(1,2)] digitChar_not_colon [OF b(3,4)])
qed

lemma timeToMinutes_pad2:
  assumes "0 \<le> h" "h < 100" "0 \<le> m" "m < 100"
  shows "timeToMinutes (pad2 h @ '':'' @ pad2 m) = Some (h * 60 + m)"
  unfolding timeToMinutes_def split_colon_pad2 [OF assms]
  by (simp add: Number_js_pad2 assms)

lemma timeToMinutes_format_HHmm:
  "timeToMinutes (format_HHmm z t) = Some ((toLocal z t mod MS_PER_DAY) div 60000)"
proof -
  let ?l = "toLocal z t mod MS_PER_DAY"
  have l: "0 \<le> ?l" "?l < 86400000"
    by (simp_all add: MS_PER_DAY_def)
  have h: "0 \<le> ?l div 3600000" "?l div 3600000 < 100"
    using l by simp_all
  have m: "0 \<le> (?l div 60000) mod 60" "(?l div 60000) mod 60 < 100"
    by (simp, rule less_trans [of _ 60]) simp_all
  have "?l div 3600000 = (?l div 60000) div 60"
    by (simp add: div_mult2_eq [symmetric])
  then have "?l div 3600000 * 60 + (?l div 60000) mod 60 = ?l div 60000"
    by simp
  then show ?thesis
    unfolding format_HHmm_def Let_def timeToMinutes_pad2 [OF h m] by simp
qed

lemma timeToMinutes_empty: "timeToMinutes [] = None"
  by (simp add: timeToMinutes_def Number_js_def)

lemma recurringSlotApplies_equal_times:
  assumes st: "startTime rule = Some st" and et: "endTime rule = Some et"
    and ms: "timeToMinutes st = Some m" and me: "timeToMinutes et = Some m"
  shows "recurringSlotApplies rule d (format_HHmm z t)"
proof -
  have ne: "st \<noteq> []" "et \<noteq> []"
    using ms me timeToMinutes_empty by auto
  show ?thesis
    by (simp add: recurringSlotApplies_def falsy_def ne st et ms me timeToMinutes_format_HHmm
        le_js_def ge_js_def lt_js_def Let_def not_less [symmetric])
qed


text \<open>
  Claim C10. For a recurring rule whose start and end times denote the same minute of the
  day, the slot-time test succeeds for every slot of a resolved day, through the branch
  for intervals that cross midnight. So on every date that passes the weekday and
  effective-date checks the rule applies to all 48 slots of the day: equal start and end
  mean the whole day, not an empty interval.
\<close>

theorem equal_start_end_covers_whole_day:
  assumes i: "i < length (calculateAvailability z rules sessions startDate endDate)"
    and rec: "ruleType rule = Recurring"
    and day: "recurringRuleApplies z rule (currentDates z startDate endDate ! i)"
    and st: "startTime rule = Some st" and et: "endTime rule = Some et"
    and ms: "timeToMinutes st = Some m" and me: "timeToMinutes et = Some m"
  shows "length (slots (calculateAvailability z rules sessions startDate endDate ! i)) = 48 \<and>
         (\<forall>slot\<in>set (slots (calculateAvailability z rules sessions startDate endDate ! i)).
            recurringSlotApplies rule (currentDates z startDate endDate ! i) (time slot)
            \<and> ruleApplies z rule (currentDates z startDate endDate ! i) slot)"
proof -
  let ?cur = "currentDates z startDate endDate ! i"
  let ?day = "calculateAvailability z rules sessions startDate endDate ! i"
  have len: "length (slots ?day) = 48"
    using i by (simp add: calculateAvailability_map resolveDay_def generateDaySlots_length)
  have "recurringSlotApplies rule ?cur (time slot) \<and> ruleApplies z rule ?cur slot"
    if slot: "slot \<in> set (slots ?day)" for slot
  proof -
    from i slot obtain s0 where s0: "s0 \<in> set (generateDaySlots z ?cur)"
      and eq: "slot = resolveSlot z (sortByUpdatedAt rules) sessions ?cur s0"
      by (rule resolved_slot_origin)
    from s0 obtain t where "time s0 = format_HHmm z t"
      by (auto simp: generateDaySlots_map)
    then have "time slot = format_HHmm z t"
      by (simp add: eq)
    then have "recurringSlotApplies rule ?cur (time slot)"
      using recurringSlotApplies_equal_times [OF st et ms me] by simp
    then show ?thesis
      using rec day by (simp add: ruleApplies_def)
  qed
  with len show ?thesis by blast
qed

theorem equal_start_end_covers_whole_day_witness:
  "recurringRuleApplies utc (exRecurring ''all'' RMaybe [''Fri''] ''09:00'' ''09:00'' 1)
     (currentDates utc exDay exDay ! 0) \<and>
   length (slots (calculateAvailability utc
     [exRecurring ''all'' RMaybe [''Fri''] ''09:00'' ''09:00'' 1] [] exDay exDay ! 0)) = 48 \<and>
   ruleApplies utc (exRecurring ''all'' RMaybe [''Fri''] ''09:00'' ''09:00'' 1)
     (currentDates utc exDay exDay ! 0)
     (slots (calculateAvailability utc
        [exRecurring ''all'' RMaybe [''Fri''] ''09:00'' ''09:00'' 1] [] exDay exDay ! 0) ! 0)"
proof -
  let ?rule = "exRecurring ''all'' RMaybe [''Fri''] ''09:00'' ''09:00'' 1"
  let ?out = "calculateAvailability utc [?rule] [] exDay exDay"
  have i: "0 < length ?out" by code_simp
  have rec: "ruleType ?rule = Recurring" by (simp add: exRecurring_def)
  have day: "recurringRuleApplies utc ?rule (currentDates utc exDay exDay ! 0)" by code_simp
  have st: "startTime ?rule = Some ''09:00''" and et: "endTime ?rule = Some ''09:00''"
    by (simp_all add: exRecurring_def)
  have ms: "timeToMinutes ''09:00'' = Some 540" by code_simp
  note all = equal_start_end_covers_whole_day [OF i rec day st et ms ms]
  then have len: "length (slots (?out ! 0)) = 48" by simp
  then have "slots (?out ! 0) ! 0 \<in> set (slots (?out ! 0))" by simp
  with all day len show ?thesis by blast
qed

text \<open>
  Claim C4, evaluated. A recurring rule for Fridays from 22:00 to 04:00 is resolved over
  Friday 2026-10-30 and Saturday 2026-10-31. The claim has it match 22:00--23:30 on the
  Friday and 00:00--03:30 on the Saturday, and not the Friday's own 00:00--03:30. The code
  tests the weekday of the slot's own date only: the Friday's slots 00:00--03:30 and
  22:00--23:30 get the rule's status, and every slot of the Saturday stays Blank.
\<close>

theorem overnight_rule_same_day_evaluation:
  "map (\<lambda>d. (date d, dayName d))
     (calculateAvailability utc [exRecurring ''night'' RAvailable [''Fri''] ''22:00'' ''04:00'' 1] []
        exDay (addMinutes exDay (24 * 60)))
     = [(20756, ''Fri''), (20757, ''Sat'')] \<and>
   map time (filter (\<lambda>s. status s = Available)
     (slots (calculateAvailability utc
        [exRecurring ''night'' RAvailable [''Fri''] ''22:00'' ''04:00'' 1] []
        exDay (addMinutes exDay (24 * 60)) ! 0)))
     = [''00:00'', ''00:30'', ''01:00'', ''01:30'', ''02:00'', ''02:30'', ''03:00'', ''03:30'',
        ''22:00'', ''22:30'', ''23:00'', ''23:30''] \<and>
   list_all (\<lambda>s. status s = Blank)
     (slots (calculateAvailability utc
        [exRecurring ''night'' RAvailable [''Fri''] ''22:00'' ''04:00'' 1] []
        exDay (addMinutes exDay (24 * 60)) ! 1))"
  by code_simp

text \<open>
  Claim C5, evaluated where a local day is not 24 hours long. In America/New\_York,
  2026-11-01 has 25 hours. Resolving that single date, the loop advances \<open>currentDate\<close>
  by 24 * 60 minutes, reaches 23:00 of the same date, which is not after the end of the
  day, and resolves the date a second time: two entries, not one. The slot generator
  steps through elapsed time, so the labels of the day repeat 01:00 and 01:30 and the day's
  48 slots end at 22:30.
\<close>

theorem day_loop_repeats_date_evaluation:
  "map date (calculateAvailability newYorkFall2026 [] []
      (20758 * 86400000 + 4 * 3600000) (20758 * 86400000 + 4 * 3600000)) = [20758, 20758] \<and>
   map time (take 6 (slots (calculateAvailability newYorkFall2026 [] []
      (20758 * 86400000 + 4 * 3600000) (20758 * 86400000 + 4 * 3600000) ! 0)))
     = [''00:00'', ''00:30'', ''01:00'', ''01:30'', ''01:00'', ''01:30'']"
  by code_simp

section \<open>The day loop where the offset from UTC is constant\<close>

text \<open>
  Where the process time zone keeps one offset from UTC, every local day is 24 hours long
  and the loop visits each calendar day from the start date through the end date once,
  in order; every day has its 48 slots at 00:00, 00:30, ..., 23:30, each 30 minutes after
  the one before.
\<close>

lemma dayStarts_fixed:
  "dayStarts (x * MS_PER_DAY - c) (y * MS_PER_DAY + (MS_PER_DAY - 1) - c)
     = map (\<lambda>k. k * MS_PER_DAY - c) [x..y]"
proof (induction "nat (y - x + 1)" arbitrary: x)
  case 0
  then have "y < x" by simp
  then have "y + 1 \<le> x" by simp
  then have "(y + 1) * 86400000 \<le> x * 86400000" by (rule mult_right_mono) simp
  then have "\<not> (x * 86400000 - c \<le> y * 86400000 + 86399999 - c)" by (simp add: algebra_simps)
  then show ?case
    using \<open>y < x\<close> by (subst dayStarts.simps) (simp add: isBefore_def MS_PER_DAY_def less_le)
next
  case (Suc n)
  then have le: "x \<le> y" and n: "n = nat (y - (x + 1) + 1)" by simp_all
  from le have "x * 86400000 \<le> y * 86400000" by (rule mult_right_mono) simp
  then have cond: "x * 86400000 - c \<le> y * 86400000 + 86399999 - c" by simp
  have nxt: "addMinutes (x * MS_PER_DAY - c) (24 * 60) = (x + 1) * MS_PER_DAY - c"
    by (simp add: addMinutes_def MS_PER_DAY_def MS_PER_MINUTE_def algebra_simps)
  have "dayStarts (x * MS_PER_DAY - c) (y * MS_PER_DAY + (MS_PER_DAY - 1) - c)
      = (x * MS_PER_DAY - c)
        # dayStarts (addMinutes (x * MS_PER_DAY - c) (24 * 60))
            (y * MS_PER_DAY + (MS_PER_DAY - 1) - c)"
    using cond by (subst dayStarts.simps) (simp add: isBefore_def less_le MS_PER_DAY_def)
  also have "\<dots> = (x * MS_PER_DAY - c)
        # dayStarts ((x + 1) * MS_PER_DAY - c) (y * MS_PER_DAY + (MS_PER_DAY - 1) - c)"
    by (simp only: nxt)
  also have "\<dots> = (x * MS_PER_DAY - c) # map (\<lambda>k. k * MS_PER_DAY - c) [x + 1..y]"
    using Suc.hyps(1) [OF n] by simp
  also have "\<dots> = map (\<lambda>k. k * MS_PER_DAY - c) [x..y]"
    using le by (simp add: upto_rec1 [of x y])
  finally show ?case .
qed

lemma localDay_fixed: "localDay (fixedOffset c) (k * MS_PER_DAY - c) = k"
  by (simp add: localDay_def fixedOffset_def MS_PER_DAY_def)

lemma startOfDay_fixed:
  "startOfDay (fixedOffset c) d = localDay (fixedOffset c) d * MS_PER_DAY - c"
  by (simp add: startOfDay_def fixedOffset_def)

lemma endOfDay_fixed:
  "endOfDay (fixedOffset c) d = localDay (fixedOffset c) d * MS_PER_DAY + (MS_PER_DAY - 1) - c"
  by (simp add: endOfDay_def fixedOffset_def)

lemma currentDates_fixed:
  "currentDates (fixedOffset c) startDate endDate
     = map (\<lambda>k. k * MS_PER_DAY - c)
         [localDay (fixedOffset c) startDate .. localDay (fixedOffset c) endDate]"
  by (simp add: currentDates_def startOfDay_fixed endOfDay_fixed dayStarts_fixed)

lemma format_HHmm_fixed:
  assumes "i < 48"
  shows "format_HHmm (fixedOffset c) (addMinutes (k * MS_PER_DAY - c) (30 * int i))
           = pad2 (int i div 2) @ '':'' @ pad2 (30 * (int i mod 2))"
proof -
  have l: "toLocal (fixedOffset c) (addMinutes (k * MS_PER_DAY - c) (30 * int i))
             = k * 86400000 + 1800000 * int i"
    by (simp add: fixedOffset_def addMinutes_def MS_PER_DAY_def MS_PER_MINUTE_def)
  have "0 \<le> 1800000 * int i" "1800000 * int i < 86400000"
    using assms by simp_all
  then have m: "(k * 86400000 + 1800000 * int i) mod 86400000 = 1800000 * int i"
    by (simp add: mod_pos_pos_trivial)
  have h: "(1800000 * int i) div 3600000 = int i div 2"
    by simp
  have "(1800000 * int i) div 60000 = 30 * int i"
    by simp
  moreover have "(30 * int i) mod 60 = 30 * (int i mod 2)"
    using mult_mod_right [of 30 "int i" 2] by simp
  ultimately have mi: "((1800000 * int i) div 60000) mod 60 = 30 * (int i mod 2)"
    by simp
  show ?thesis
    unfolding format_HHmm_def Let_def l unfolding MS_PER_DAY_def m h mi ..
qed

lemma fixed_offset_one_entry_per_day:
  "map date (calculateAvailability (fixedOffset c) rules sessions startDate endDate)
     = [localDay (fixedOffset c) startDate .. localDay (fixedOffset c) endDate]"
proof -
  have "date (resolveDay (fixedOffset c) rules sessions (k * MS_PER_DAY - c)) = k" for k
    by (simp add: resolveDay_def format_date_def localDay_fixed)
  then show ?thesis
    by (simp add: calculateAvailability_map currentDates_fixed comp_def)
qed

lemma fixed_offset_slot_times:
  assumes "day \<in> set (calculateAvailability (fixedOffset c) rules sessions startDate endDate)"
  shows "map time (slots day)
           = map (\<lambda>i. pad2 (int i div 2) @ '':'' @ pad2 (30 * (int i mod 2))) [0..<48]
         \<and> map datetime (slots day)
           = map (\<lambda>i. addMinutes (date day * MS_PER_DAY - c) (30 * int i)) [0..<48]"
proof -
  from assms obtain k where
    day: "day = resolveDay (fixedOffset c) rules sessions (k * MS_PER_DAY - c)"
    by (auto simp: calculateAvailability_map currentDates_fixed)
  have dk: "date day = k"
    by (simp add: day resolveDay_def format_date_def localDay_fixed)
  have sod: "startOfDay (fixedOffset c) (k * MS_PER_DAY - c) = k * MS_PER_DAY - c"
    by (simp add: startOfDay_fixed localDay_fixed)
  have t: "map time (slots day)
      = map (\<lambda>i. format_HHmm (fixedOffset c) (addMinutes (k * MS_PER_DAY - c) (30 * int i)))
          [0..<48]"
    by (simp add: day resolveDay_def generateDaySlots_map sod comp_def)
  also have "\<dots> = map (\<lambda>i. pad2 (int i div 2) @ '':'' @ pad2 (30 * (int i mod 2))) [0..<48]"
    by (rule map_cong [OF refl]) (simp add: format_HHmm_fixed)
  finally have times: "map time (slots day)
      = map (\<lambda>i. pad2 (int i div 2) @ '':'' @ pad2 (30 * (int i mod 2))) [0..<48]" .
  have "map datetime (slots day)
      = map (\<lambda>i. addMinutes (k * MS_PER_DAY - c) (30 * int i)) [0..<48]"
    by (simp add: day resolveDay_def generateDaySlots_map sod comp_def)
  with times dk show ?thesis by simp
qed

section \<open>Properties of the summary\<close>

lemma summaryStep_push:
  "summaryStep targetDate sm em summary (engineerName, days) =
     push (classifyEngineer targetDate sm em days) engineerName summary"
  by (simp add: summaryStep_def classifyEngineer_def precedence_def anySlot_def allSlots_def
      Let_def list_ex_iff split: option.splits)

lemma bucketList_push:
  "bucketList b (push b' n s) = (if b = b' then bucketList b s @ [n] else bucketList b s)"
  by (cases b; cases b') simp_all

lemma bucketList_foldl:
  "bucketList b (foldl (summaryStep targetDate sm em) s entries) =
     bucketList b s @ map fst (filter (\<lambda>e. classifyEngineer targetDate sm em (snd e) = b) entries)"
proof (induction entries arbitrary: s)
  case Nil
  show ?case by simp
next
  case (Cons e es)
  obtain n d where e: "e = (n, d)" by (cases e)
  show ?case
    by (simp add: Cons.IH e summaryStep_push bucketList_push)
qed

lemma bucketList_summary:
  "bucketList b (getAvailabilitySummary entries targetDate windowStart windowEnd) =
     map fst (filter (\<lambda>e. classifyEngineer targetDate (timeToMinutes windowStart)
                        (timeToMinutes windowEnd) (snd e) = b) entries)"
proof -
  have "bucketList b emptySummary = []"
    by (cases b) (simp_all add: emptySummary_def)
  then show ?thesis
    by (simp add: getAvailabilitySummary_def bucketList_foldl)
qed

lemma allBuckets_push:
  "set (allBuckets (push b n s)) = insert n (set (allBuckets s))"
  "distinct (allBuckets (push b n s)) \<longleftrightarrow> distinct (allBuckets s) \<and> n \<notin> set (allBuckets s)"
  by (cases b; auto simp: allBuckets_def)+

lemma allBuckets_foldl:
  "set (allBuckets (foldl (summaryStep targetDate sm em) s entries))
     = set (allBuckets s) \<union> fst ` set entries"
  "distinct (allBuckets (foldl (summaryStep targetDate sm em) s entries)) \<longleftrightarrow>
     distinct (allBuckets s) \<and> distinct (map fst entries)
     \<and> set (allBuckets s) \<inter> fst ` set entries = {}"
proof (induction entries arbitrary: s)
  case Nil
  { case 1 show ?case by simp }
  { case 2 show ?case by simp }
next
  case (Cons e es)
  obtain n d where e: "e = (n, d)" by (cases e)
  { case 1 show ?case by (simp add: Cons.IH(1) e summaryStep_push allBuckets_push) }
  { case 2 show ?case by (auto simp: Cons.IH e summaryStep_push allBuckets_push) }
qed

lemma classified_iff:
  assumes keys: "distinct (map fst entries)" and e: "(engineerName, days) \<in> set entries"
  shows "engineerName \<in> set (bucketList b
           (getAvailabilitySummary entries targetDate windowStart windowEnd))
         \<longleftrightarrow> classifyEngineer targetDate (timeToMinutes windowStart)
               (timeToMinutes windowEnd) days = b"
proof -
  have "days' = days" if "(engineerName, days') \<in> set entries" for days'
    using keys that e by (rule eq_key_imp_eq_value)
  then have "(\<exists>d. (engineerName, d) \<in> set entries \<and> Q d) \<longleftrightarrow> Q days" for Q
    using e by blast
  moreover have "engineerName \<in> set (bucketList b
           (getAvailabilitySummary entries targetDate windowStart windowEnd))
      \<longleftrightarrow> (\<exists>d. (engineerName, d) \<in> set entries
            \<and> classifyEngineer targetDate (timeToMinutes windowStart)
               (timeToMinutes windowEnd) d = b)"
    unfolding bucketList_summary by force
  ultimately show ?thesis by simp
qed

lemma precedence_blank_available:
  "set statuses = {Blank, Available} \<Longrightarrow> precedence statuses = BAvailable"
  by (auto simp: precedence_def anySlot_def allSlots_def list_ex_iff list_all_iff)

text \<open>
  Claim C2. An engineer whose sequence holds a day for the target date, with at least one
  slot in the window, is put in the bucket that the precedence of section 4.3 gives for
  the statuses of those slots, and in no other. In particular, when the statuses are a mix
  of Blank and Available and nothing else, the engineer is classified available.
\<close>

theorem summary_follows_precedence:
  assumes keys: "distinct (map fst entries)"
    and e: "(engineerName, days) \<in> set entries"
    and day: "find (\<lambda>d. date d = targetDate) days = Some targetDay"
    and rel: "relevantSlots (timeToMinutes windowStart) (timeToMinutes windowEnd) targetDay \<noteq> []"
  shows "(engineerName \<in> set (bucketList b
            (getAvailabilitySummary entries targetDate windowStart windowEnd))
          \<longleftrightarrow> b = precedence (map status
                (relevantSlots (timeToMinutes windowStart) (timeToMinutes windowEnd) targetDay)))
         \<and> (set (map status
                (relevantSlots (timeToMinutes windowStart) (timeToMinutes windowEnd) targetDay))
               = {Blank, Available}
              \<longrightarrow> engineerName \<in> set (available
                    (getAvailabilitySummary entries targetDate windowStart windowEnd)))"
proof -
  let ?S = "getAvailabilitySummary entries targetDate windowStart windowEnd"
  let ?statuses = "map status
     (relevantSlots (timeToMinutes windowStart) (timeToMinutes windowEnd) targetDay)"
  have cls: "classifyEngineer targetDate (timeToMinutes windowStart) (timeToMinutes windowEnd) days
               = precedence ?statuses"
    by (simp add: classifyEngineer_def day rel)
  have iff: "engineerName \<in> set (bucketList b ?S) \<longleftrightarrow> b = precedence ?statuses" for b
    using classified_iff [OF keys e] cls by auto
  have "engineerName \<in> set (available ?S)" if "set ?statuses = {Blank, Available}"
    using iff [of BAvailable] precedence_blank_available [OF that] by simp
  with iff show ?thesis by blast
qed

lemma in_window_iff:
  "ge_js a b \<and> lt_js a c \<longleftrightarrow>
     (\<exists>m s e. a = Some m \<and> b = Some s \<and> c = Some e \<and> s \<le> m \<and> m < e)"
  by (cases a; cases b; cases c) (simp_all add: ge_js_def lt_js_def)

lemma relevantSlots_empty_iff:
  "relevantSlots (timeToMinutes windowStart) (timeToMinutes windowEnd) targetDay = [] \<longleftrightarrow>
     (\<forall>slot\<in>set (slots targetDay).
        \<not> (\<exists>m s e. timeToMinutes (time slot) = Some m \<and> timeToMinutes windowStart = Some s
               \<and> timeToMinutes windowEnd = Some e \<and> s \<le> m \<and> m < e))"
  unfolding relevantSlots_def filter_empty_conv Let_def in_window_iff ..


text \<open>
  Claim C6. The five buckets of the summary partition the engineers of the input: taken
  together they hold every engineer name, each exactly once. An engineer is in \<open>not_set\<close>
  whenever no day of the sequence has the target date, or the day located for the target
  date has no slot whose minute of the day \<open>m\<close> satisfies \<open>s \<le> m < e\<close>, where \<open>s\<close> and \<open>e\<close> are
  the minutes of the day of the window's start and end.
\<close>

theorem summary_is_partition:
  assumes keys: "distinct (map fst entries)"
  shows "distinct (available (getAvailabilitySummary entries targetDate windowStart windowEnd)
           @ maybe (getAvailabilitySummary entries targetDate windowStart windowEnd)
           @ unavailable (getAvailabilitySummary entries targetDate windowStart windowEnd)
           @ booked (getAvailabilitySummary entries targetDate windowStart windowEnd)
           @ not_set (getAvailabilitySummary entries targetDate windowStart windowEnd))
         \<and> set (available (getAvailabilitySummary entries targetDate windowStart windowEnd)
           @ maybe (getAvailabilitySummary entries targetDate windowStart windowEnd)
           @ unavailable (getAvailabilitySummary entries targetDate windowStart windowEnd)
           @ booked (getAvailabilitySummary entries targetDate windowStart windowEnd)
           @ not_set (getAvailabilitySummary entries targetDate windowStart windowEnd))
           = fst ` set entries
         \<and> (\<forall>engineerName days. (engineerName, days) \<in> set entries
              \<and> ((\<forall>d\<in>set days. date d \<noteq> targetDate)
                 \<or> (\<exists>targetDay. find (\<lambda>d. date d = targetDate) days = Some targetDay
                      \<and> (\<forall>slot\<in>set (slots targetDay).
                           \<not> (\<exists>m s e. timeToMinutes (time slot) = Some m
                                  \<and> timeToMinutes windowStart = Some s
                                  \<and> timeToMinutes windowEnd = Some e
                                  \<and> s \<le> m \<and> m < e))))
              \<longrightarrow> engineerName \<in> set (not_set
                    (getAvailabilitySummary entries targetDate windowStart windowEnd)))"
proof -
  let ?S = "getAvailabilitySummary entries targetDate windowStart windowEnd"
  have empty: "allBuckets emptySummary = []"
    by (simp add: allBuckets_def emptySummary_def)
  have d: "distinct (allBuckets ?S)"
    unfolding getAvailabilitySummary_def allBuckets_foldl(2) using keys by (simp add: empty)
  have s: "set (allBuckets ?S) = fst ` set entries"
    unfolding getAvailabilitySummary_def allBuckets_foldl(1) by (simp add: empty)
  have n: "engineerName \<in> set (not_set ?S)"
    if e: "(engineerName, days) \<in> set entries"
      and c: "(\<forall>d\<in>set days. date d \<noteq> targetDate)
                 \<or> (\<exists>targetDay. find (\<lambda>d. date d = targetDate) days = Some targetDay
                      \<and> (\<forall>slot\<in>set (slots targetDay).
                           \<not> (\<exists>m s e. timeToMinutes (time slot) = Some m
                                  \<and> timeToMinutes windowStart = Some s
                                  \<and> timeToMinutes windowEnd = Some e
                                  \<and> s \<le> m \<and> m < e)))"
    for engineerName days
  proof -
    from c have "classifyEngineer targetDate (timeToMinutes windowStart)
                   (timeToMinutes windowEnd) days = BNotSet"
    proof
      assume "\<forall>d\<in>set days. date d \<noteq> targetDate"
      then have "find (\<lambda>d. date d = targetDate) days = None"
        by (simp add: find_None_iff)
      then show ?thesis
        by (simp add: classifyEngineer_def)
    next
      assume "\<exists>targetDay. find (\<lambda>d. date d = targetDate) days = Some targetDay
                      \<and> (\<forall>slot\<in>set (slots targetDay).
                           \<not> (\<exists>m s e. timeToMinutes (time slot) = Some m
                                  \<and> timeToMinutes windowStart = Some s
                                  \<and> timeToMinutes windowEnd = Some e
                                  \<and> s \<le> m \<and> m < e))"
      then obtain targetDay where f: "find (\<lambda>d. date d = targetDate) days = Some targetDay"
        and w: "relevantSlots (timeToMinutes windowStart) (timeToMinutes windowEnd) targetDay = []"
        unfolding relevantSlots_empty_iff by blast
      then show ?thesis
        by (simp add: classifyEngineer_def)
    qed
    then show ?thesis
      using classified_iff [OF keys e, of BNotSet] by simp
  qed
  from d s n show ?thesis
    unfolding allBuckets_def by blast
qed


theorem summary_follows_precedence_witness:
  "map status (relevantSlots (timeToMinutes ''09:00'') (timeToMinutes ''11:00'')
     (hd (calculateAvailability utc [exOneTime ''r1'' RAvailable 540 600 1] [] exDay exDay)))
     = [Available, Available, Blank, Blank] \<and>
   ''Ann'' \<in> set (available (getAvailabilitySummary exEngineers 20756 ''09:00'' ''11:00'')) \<and>
   ''Ann'' \<notin> set (maybe (getAvailabilitySummary exEngineers 20756 ''09:00'' ''11:00''))"
proof -
  let ?days = "calculateAvailability utc [exOneTime ''r1'' RAvailable 540 600 1] [] exDay exDay"
  let ?rel = "relevantSlots (timeToMinutes ''09:00'') (timeToMinutes ''11:00'') (hd ?days)"
  have keys: "distinct (map fst exEngineers)" by code_simp
  have e: "(''Ann'', ?days) \<in> set exEngineers" by (simp add: exEngineers_def)
  have day: "find (\<lambda>d. date d = 20756) ?days = Some (hd ?days)" by code_simp
  have st: "map status ?rel = [Available, Available, Blank, Blank]" by code_simp
  then have rel: "?rel \<noteq> []" by auto
  have mix: "set (map status ?rel) = {Blank, Available}"
    unfolding st by auto
  have av: "precedence (map status ?rel) = BAvailable"
    unfolding st by code_simp
  note main = summary_follows_precedence [OF keys e day rel]
  have "''Ann'' \<in> set (available (getAvailabilitySummary exEngineers 20756 ''09:00'' ''11:00''))"
    using conjunct2 [OF main [of BAvailable]] mix by (rule mp)
  moreover have "''Ann'' \<notin> set (maybe (getAvailabilitySummary exEngineers 20756 ''09:00'' ''11:00''))"
    using conjunct1 [OF main [of BMaybe]] unfolding av by simp
  ultimately show ?thesis using st by simp
qed

theorem summary_is_partition_witness:
  "available (getAvailabilitySummary exEngineers 20756 ''09:00'' ''11:00'')
     @ maybe (getAvailabilitySummary exEngineers 20756 ''09:00'' ''11:00'')
     @ unavailable (getAvailabilitySummary exEngineers 20756 ''09:00'' ''11:00'')
     @ booked (getAvailabilitySummary exEngineers 20756 ''09:00'' ''11:00'')
     @ not_set (getAvailabilitySummary exEngineers 20756 ''09:00'' ''11:00'')
     = [''Ann'', ''Cyd'', ''Bob''] \<and>
   distinct (available (getAvailabilitySummary exEngineers 20756 ''09:00'' ''11:00'')
     @ maybe (getAvailabilitySummary exEngineers 20756 ''09:00'' ''11:00'')
     @ unavailable (getAvailabilitySummary exEngineers 20756 ''09:00'' ''11:00'')
     @ booked (getAvailabilitySummary exEngineers 20756 ''09:00'' ''11:00'')
     @ not_set (getAvailabilitySummary exEngineers 20756 ''09:00'' ''11:00'')) \<and>
   ''Bob'' \<in> set (not_set (getAvailabilitySummary exEngineers 20756 ''09:00'' ''11:00'')) \<and>
   map status (filter (\<lambda>slot. time slot = ''09:00'' \<or> time slot = ''09:30'')
     (slots (hd (calculateAvailability utc [exOneTime ''r1'' RAvailable 540 600 1] []
        exDay exDay)))) = [Available, Available] \<and>
   ''Ann'' \<in> set (not_set (getAvailabilitySummary exEngineers 20756 ''09:10'' ''09:20'')) \<and>
   ''Ann'' \<in> set (not_set (getAvailabilitySummary exEngineers 20756 ''11:00'' ''09:00''))"
proof -
  let ?days = "calculateAvailability utc [exOneTime ''r1'' RAvailable 540 600 1] [] exDay exDay"
  have keys: "distinct (map fst exEngineers)" by code_simp
  have bob: "(''Bob'', []) \<in> set exEngineers" by (simp add: exEngineers_def)
  have ann: "(''Ann'', ?days) \<in> set exEngineers" by (simp add: exEngineers_def)
  have ev: "available (getAvailabilitySummary exEngineers 20756 ''09:00'' ''11:00'')
     @ maybe (getAvailabilitySummary exEngineers 20756 ''09:00'' ''11:00'')
     @ unavailable (getAvailabilitySummary exEngineers 20756 ''09:00'' ''11:00'')
     @ booked (getAvailabilitySummary exEngineers 20756 ''09:00'' ''11:00'')
     @ not_set (getAvailabilitySummary exEngineers 20756 ''09:00'' ''11:00'')
     = [''Ann'', ''Cyd'', ''Bob'']"
    by code_simp
  have st: "map status (filter (\<lambda>slot. time slot = ''09:00'' \<or> time slot = ''09:30'')
     (slots (hd ?days))) = [Available, Available]"
    by code_simp
  note main = summary_is_partition [OF keys, of 20756 "''09:00''" "''11:00''"]
  have d: "distinct (available (getAvailabilitySummary exEngineers 20756 ''09:00'' ''11:00'')
     @ maybe (getAvailabilitySummary exEngineers 20756 ''09:00'' ''11:00'')
     @ unavailable (getAvailabilitySummary exEngineers 20756 ''09:00'' ''11:00'')
     @ booked (getAvailabilitySummary exEngineers 20756 ''09:00'' ''11:00'')
     @ not_set (getAvailabilitySummary exEngineers 20756 ''09:00'' ''11:00''))"
    using main by (rule conjunct1)
  note ns = conjunct2 [OF conjunct2 [OF main]]
  have b: "''Bob'' \<in> set (not_set (getAvailabilitySummary exEngineers 20756 ''09:00'' ''11:00''))"
    using ns [rule_format, of "''Bob''" "[]"] bob by simp
  have day: "find (\<lambda>d. date d = 20756) ?days = Some (hd ?days)" by code_simp
  have t1: "timeToMinutes ''09:10'' = Some 550" "timeToMinutes ''09:20'' = Some 560"
    by code_simp+
  have mins: "list_all (\<lambda>slot. \<not> (ge_js (timeToMinutes (time slot)) (Some 550)
                        \<and> lt_js (timeToMinutes (time slot)) (Some 560))) (slots (hd ?days))"
    by code_simp
  have none1: "\<forall>slot\<in>set (slots (hd ?days)).
      \<not> (\<exists>m s e. timeToMinutes (time slot) = Some m \<and> timeToMinutes ''09:10'' = Some s
             \<and> timeToMinutes ''09:20'' = Some e \<and> s \<le> m \<and> m < e)"
    using mins unfolding list_all_iff in_window_iff t1 by blast
  note ns1 = conjunct2 [OF conjunct2 [OF summary_is_partition [OF keys, of 20756 "''09:10''" "''09:20''"]]]
  have a1: "''Ann'' \<in> set (not_set (getAvailabilitySummary exEngineers 20756 ''09:10'' ''09:20''))"
    using ns1 [rule_format, of "''Ann''" ?days] ann day none1 by blast
  have t2: "timeToMinutes ''11:00'' = Some 660" "timeToMinutes ''09:00'' = Some 540"
    by code_simp+
  have none2: "\<forall>slot\<in>set (slots (hd ?days)).
      \<not> (\<exists>m s e. timeToMinutes (time slot) = Some m \<and> timeToMinutes ''11:00'' = Some s
             \<and> timeToMinutes ''09:00'' = Some e \<and> s \<le> m \<and> m < e)"
    unfolding t2 by auto
  note ns2 = conjunct2 [OF conjunct2 [OF summary_is_partition [OF keys, of 20756 "''11:00''" "''09:00''"]]]
  have a2: "''Ann'' \<in> set (not_set (getAvailabilitySummary exEngineers 20756 ''11:00'' ''09:00''))"
    using ns2 [rule_format, of "''Ann''" ?days] ann day none2 by blast
  from ev d b st a1 a2 show ?thesis by blast
qed

section \<open>Properties of the chatbot endpoint\<close>

lemma nextDay_fixedOffset: "nextDay (fixedOffset c) day = day + 1"
proof -
  have "(day * 86400000 + 86400000) div 86400000 = day + (1::int)"
    by simp
  then show ?thesis
    by (simp add: nextDay_def format_date_def localDay_def parseISO_date_def addMinutes_def
        fixedOffset_def MS_PER_DAY_def MS_PER_MINUTE_def)
qed

lemma handler_Created:
  assumes "handler z engineers method body = Created rule"
  obtains engineer where
    "if isRecurringRequest body then recurringBranch engineer body = Created rule
     else oneTimeBranch z engineer body = Created rule"
  using assms unfolding handler_def
  by (simp split: if_splits option.splits)

lemma recurringBranch_Created:
  "recurringBranch engineer body = Created rule \<Longrightarrow> new_ruleType rule = Recurring"
  unfolding recurringBranch_def by (auto split: if_splits)

lemma oneTimeBranch_Created:
  assumes "oneTimeBranch z engineer body = Created rule"
  shows "new_ruleType rule = OneTime \<and>
         (\<exists>day st et. req_date body = Some day \<and> req_start_time body = Some st
            \<and> req_end_time body = Some et
            \<and> new_startDateTime rule = Some \<lparr>ldt_date = day, ldt_time = st\<rparr>
            \<and> new_endDateTime rule =
                Some \<lparr>ldt_date = (if js_lt et st then nextDay z day else day), ldt_time = et\<rparr>)"
proof (cases "req_date body = None \<or> falsy (req_start_time body) \<or> falsy (req_end_time body)")
  case True
  with assms show ?thesis by (simp add: oneTimeBranch_def)
next
  case False
  then obtain day st et where f: "req_date body = Some day" "req_start_time body = Some st"
    "req_end_time body = Some et"
    by (auto simp: falsy_def)
  from assms False have "rule =
      \<lparr>new_engineerId = eng_id engineer, new_status = the (req_status body),
       new_ruleType = OneTime,
       new_startDateTime = Some \<lparr>ldt_date = day, ldt_time = st\<rparr>,
       new_endDateTime = Some
         (if js_lt et st then \<lparr>ldt_date = nextDay z day, ldt_time = et\<rparr>
          else \<lparr>ldt_date = day, ldt_time = et\<rparr>),
       new_startTime = None, new_endTime = None, new_recurrenceDays = None,
       new_effectiveFrom = None, new_effectiveUntil = None, new_source = Chatbot\<rparr>"
    unfolding oneTimeBranch_def Let_def f by auto
  then show ?thesis
    using f by auto
qed

text \<open>
  Where the process time zone keeps one offset from UTC, the following date is the next
  day number, and the handler decides as the specification of the endpoint says: a request that is answered with a rule gets a recurring rule exactly when its
  weekday list is non-empty, and otherwise a one-time rule that starts on the request's
  date and ends on it, or on the following date when \<open>end_time < start_time\<close>.
\<close>

lemma handler_fixed_offset_rule_type:
  assumes "handler (fixedOffset c) engineers method body = Created rule"
  shows "(new_ruleType rule = Recurring \<longleftrightarrow> (\<exists>ds. req_days body = Some ds \<and> ds \<noteq> []))
         \<and> (new_ruleType rule = OneTime \<longrightarrow>
               (\<exists>day st et. req_date body = Some day \<and> req_start_time body = Some st
                  \<and> req_end_time body = Some et
                  \<and> new_startDateTime rule = Some \<lparr>ldt_date = day, ldt_time = st\<rparr>
                  \<and> new_endDateTime rule =
                      Some \<lparr>ldt_date = (if js_lt et st then day + 1 else day), ldt_time = et\<rparr>))"
proof -
  have rec: "isRecurringRequest body \<longleftrightarrow> (\<exists>ds. req_days body = Some ds \<and> ds \<noteq> [])"
    by (simp add: isRecurringRequest_def split: option.splits)
  from assms obtain engineer where
    br: "if isRecurringRequest body then recurringBranch engineer body = Created rule
         else oneTimeBranch (fixedOffset c) engineer body = Created rule"
    by (rule handler_Created)
  show ?thesis
  proof (cases "isRecurringRequest body")
    case True
    with br have "new_ruleType rule = Recurring"
      by (simp add: recurringBranch_Created)
    with True rec show ?thesis by simp
  next
    case False
    with br have "oneTimeBranch (fixedOffset c) engineer body = Created rule" by simp
    note ot = oneTimeBranch_Created [OF this, unfolded nextDay_fixedOffset]
    from ot have "new_ruleType rule \<noteq> Recurring"
      by (simp del: ex_simps)
    with ot False rec show ?thesis
      by blast
  qed
qed

text \<open>
  Claim C8, evaluated where a local day is not 24 hours long. The following date is
  computed as the date of local midnight plus 24 * 60 minutes. In America/New\_York,
  for the request's date 2026-11-01 (25 hours long) that instant is 23:00 of the same
  date: for a request from 22:00 to 04:00 the end is not moved, and the rule ends before
  it starts.
\<close>

theorem overnight_end_stays_on_date_evaluation:
  "js_lt ''04:00'' ''22:00'' \<and>
   handler newYorkFall2026 exStaff ''POST'' exOvernightRequest =
     Created
       \<lparr>new_engineerId = ''rec1'', new_status = RUnavailable, new_ruleType = OneTime,
        new_startDateTime = Some \<lparr>ldt_date = 20758, ldt_time = ''22:00''\<rparr>,
        new_endDateTime = Some \<lparr>ldt_date = 20758, ldt_time = ''04:00''\<rparr>,
        new_startTime = None, new_endTime = None, new_recurrenceDays = None,
        new_effectiveFrom = None, new_effectiveUntil = None, new_source = Chatbot\<rparr>"
  by code_simp

section \<open>Properties of the store\<close>

lemma resolveDayH_heap:
  assumes "rulesRef < nextRef h"
  shows "nextRef h \<le> nextRef (fst (resolveDayH z h rulesRef sessionsRef cur))"
    and "\<And>r. r < nextRef h \<Longrightarrow>
           ruleArrays (fst (resolveDayH z h rulesRef sessionsRef cur)) r = ruleArrays h r"
    and "sessionArrays (fst (resolveDayH z h rulesRef sessionsRef cur)) = sessionArrays h"
    and "snd (resolveDayH z h rulesRef sessionsRef cur)
           = resolveDay z (ruleArrays h rulesRef) (sessionArrays h sessionsRef) cur"
  using assms
  by (simp_all add: resolveDayH_def resolveDay_def spreadRules_def sortInPlace_def
      sortByUpdatedAt_def Let_def)

lemma dayLoopH_heap:
  "rulesRef < nextRef h \<Longrightarrow>
     nextRef h \<le> nextRef (fst (dayLoopH z h rulesRef sessionsRef cur endT))
     \<and> (\<forall>r. r < nextRef h \<longrightarrow>
           ruleArrays (fst (dayLoopH z h rulesRef sessionsRef cur endT)) r = ruleArrays h r)
     \<and> sessionArrays (fst (dayLoopH z h rulesRef sessionsRef cur endT)) = sessionArrays h
     \<and> snd (dayLoopH z h rulesRef sessionsRef cur endT)
           = dayLoop z (ruleArrays h rulesRef) (sessionArrays h sessionsRef) cur endT"
proof (induction z h rulesRef sessionsRef cur endT rule: dayLoopH.induct)
  case (1 z h rulesRef sessionsRef cur endT)
  show ?case
  proof (cases "isBefore cur endT \<or> cur = endT")
    case False
    then show ?thesis
      by (subst (1 2 3 4) dayLoopH.simps, subst dayLoop.simps) simp
  next
    case True
    let ?res = "resolveDayH z h rulesRef sessionsRef cur"
    let ?h1 = "fst ?res"
    let ?rest = "dayLoopH z ?h1 rulesRef sessionsRef (addMinutes cur (24 * 60)) endT"
    note step = resolveDayH_heap [where z = z and sessionsRef = sessionsRef and cur = cur,
        OF "1.prems"]
    have lt: "rulesRef < nextRef ?h1"
      using step(1) "1.prems" by simp
    note ih = "1.IH" [OF True refl lt]
    have unfold: "dayLoopH z h rulesRef sessionsRef cur endT = (fst ?rest, snd ?res # snd ?rest)"
      using True by (subst dayLoopH.simps) (simp add: Let_def)
    have unfold': "dayLoop z (ruleArrays h rulesRef) (sessionArrays h sessionsRef) cur endT
        = resolveDay z (ruleArrays h rulesRef) (sessionArrays h sessionsRef) cur
          # dayLoop z (ruleArrays h rulesRef) (sessionArrays h sessionsRef)
              (addMinutes cur (24 * 60)) endT"
      using True by (subst dayLoop.simps) simp
    have a: "nextRef h \<le> nextRef (fst ?rest)"
      using ih step(1) by simp
    have b: "ruleArrays (fst ?rest) r = ruleArrays h r" if "r < nextRef h" for r
    proof -
      have "r < nextRef ?h1" using that step(1) by simp
      then have "ruleArrays (fst ?rest) r = ruleArrays ?h1 r" using ih by simp
      then show ?thesis using step(2) [OF that] by simp
    qed
    have c: "sessionArrays (fst ?rest) = sessionArrays h"
      using ih step(3) by simp
    have d: "snd ?rest = dayLoop z (ruleArrays h rulesRef) (sessionArrays h sessionsRef)
               (addMinutes cur (24 * 60)) endT"
      using ih step(2) [OF "1.prems"] step(3) by simp
    show ?thesis
      unfolding unfold unfold' using a b c d step(4) by simp
  qed
qed

text \<open>
  Claim C9. A call of \<open>calculateAvailability\<close> on allocated arrays returns what the function
  of the arrays' contents, the dates and the time zone returns, and nothing else of the
  store matters: a second call with the same arguments, made in the store that the first
  call left, returns the same result. The call leaves the rules array as it was, order
  of elements included (the sort works on a copy), and the sessions array too.
\<close>

theorem calculateAvailability_leaves_inputs:
  assumes "rulesRef < nextRef h"
  shows "snd (calculateAvailabilityH z h rulesRef sessionsRef startDate endDate)
           = calculateAvailability z (ruleArrays h rulesRef) (sessionArrays h sessionsRef)
               startDate endDate
         \<and> snd (calculateAvailabilityH z
                  (fst (calculateAvailabilityH z h rulesRef sessionsRef startDate endDate))
                  rulesRef sessionsRef startDate endDate)
           = snd (calculateAvailabilityH z h rulesRef sessionsRef startDate endDate)
         \<and> ruleArrays (fst (calculateAvailabilityH z h rulesRef sessionsRef startDate endDate))
              rulesRef = ruleArrays h rulesRef
         \<and> sessionArrays (fst (calculateAvailabilityH z h rulesRef sessionsRef startDate endDate))
              sessionsRef = sessionArrays h sessionsRef"
proof -
  let ?h' = "fst (calculateAvailabilityH z h rulesRef sessionsRef startDate endDate)"
  note first = dayLoopH_heap [OF assms, of z sessionsRef "startOfDay z startDate" "endOfDay z endDate",
      folded calculateAvailabilityH_def calculateAvailability_def]
  have lt: "rulesRef < nextRef ?h'"
    using first assms by simp
  note second = dayLoopH_heap [OF lt, of z sessionsRef "startOfDay z startDate" "endOfDay z endDate",
      folded calculateAvailabilityH_def calculateAvailability_def]
  have r: "ruleArrays ?h' rulesRef = ruleArrays h rulesRef"
    using first assms by simp
  have s: "sessionArrays ?h' sessionsRef = sessionArrays h sessionsRef"
    using first by simp
  show ?thesis
    using first second r s by simp
qed

theorem calculateAvailability_leaves_inputs_witness:
  "ruleArrays (fst (calculateAvailabilityH utc exHeap 0 0 exDay exDay)) 0 = exRules3 \<and>
   map rule_id (ruleArrays (fst (calculateAvailabilityH utc exHeap 0 0 exDay exDay)) 0)
     = [''r3'', ''r1'', ''r2''] \<and>
   snd (calculateAvailabilityH utc (fst (calculateAvailabilityH utc exHeap 0 0 exDay exDay))
          0 0 exDay exDay)
     = snd (calculateAvailabilityH utc exHeap 0 0 exDay exDay)"
proof -
  have a: "(0::nat) < nextRef exHeap" by (simp add: exHeap_def)
  have r: "ruleArrays exHeap 0 = exRules3" by (simp add: exHeap_def)
  have ids: "map rule_id exRules3 = [''r3'', ''r1'', ''r2'']" by code_simp
  show ?thesis
    using calculateAvailability_leaves_inputs [OF a, of utc 0 exDay exDay] r ids by simp
qed

end
